theory Spec2Isabelle
  imports Main "HOL-Library.Word" "HOL-Library.Sublist"
begin

section \<open>Data model of the event stream\<close>

text \<open>
  The development embeds \<^verbatim>\<open>src/event-stream/socket-server.ts\<close>. JavaScript strings are
  \<open>string\<close>, a \<^verbatim>\<open>Buffer\<close> is a list of bytes, a \<^verbatim>\<open>bigint\<close> is an \<open>int\<close>, an optional
  property of an object (\<^verbatim>\<open>sender?: string\<close>) is an \<open>option\<close>, where \<open>None\<close> says that the
  object has no such property. Console output is not modelled.
\<close>

type_synonym Buffer = "8 word list"

subsection \<open>Messages of the core node\<close>

text \<open>
  The payload objects of the eight event kinds, by the properties that the socket server
  reads from them.
\<close>

record contract_event =
  contract_identifier :: string
  topic :: string
  raw_value :: string

record stx_transfer_event =
  sender :: string
  recipient :: string
  amount :: string

record stx_mint_event =
  recipient :: string
  amount :: string

record stx_burn_event =
  sender :: string
  amount :: string

record ft_transfer_event =
  sender :: string
  recipient :: string
  asset_identifier :: string
  amount :: string

record ft_mint_event =
  recipient :: string
  asset_identifier :: string
  amount :: string

record nft_transfer_event =
  recipient :: string
  sender :: string
  asset_identifier :: string
  raw_value :: string

record nft_mint_event =
  recipient :: string
  asset_identifier :: string
  raw_value :: string

text \<open>
  An event is a union discriminated by its \<^verbatim>\<open>type\<close> property. The first eight constructors
  are the members of \<^verbatim>\<open>CoreNodeEventType\<close>, each with the payload object stored under the
  property of the same name; \<open>UnexpectedEvent\<close> stands for an event whose \<^verbatim>\<open>type\<close> is any
  other value (it carries that value), which is what reaches the \<^verbatim>\<open>default\<close> branch of the
  switch.
\<close>

datatype CoreNodeEventBody =
    ContractEvent contract_event
  | StxTransferEvent stx_transfer_event
  | StxMintEvent stx_mint_event
  | StxBurnEvent stx_burn_event
  | FtTransferEvent ft_transfer_event
  | FtMintEvent ft_mint_event
  | NftTransferEvent nft_transfer_event
  | NftMintEvent nft_mint_event
  | UnexpectedEvent string

record CoreNodeEvent =
  txid :: string
  body :: CoreNodeEventBody

text \<open>
  The decoded payload of a transaction: only the smart contract payload is inspected, by
  its \<^verbatim>\<open>name\<close> and \<^verbatim>\<open>codeBody\<close>; \<open>OtherPayload\<close> is a payload whose \<^verbatim>\<open>typeId\<close> is not
  \<^verbatim>\<open>TransactionPayloadTypeID.SmartContract\<close>.
\<close>

datatype TransactionPayload =
    SmartContract (name: string) (codeBody: string)
  | OtherPayload

record Transaction =
  payload :: TransactionPayload

record 'abi CoreNodeTxMessage =
  txid :: string
  contract_abi :: 'abi

record 'abi CoreNodeParsedTxMessage =
  core_tx :: "'abi CoreNodeTxMessage"
  raw_tx :: Transaction
  sender_address :: string

record 'abi CoreNodeMessage =
  block_hash :: string
  index_block_hash :: string
  parent_block_hash :: string
  parent_microblock :: string
  block_height :: int
  burn_block_time :: int
  transactions :: "'abi CoreNodeTxMessage list"
  events :: "CoreNodeEvent list"

record 'abi CoreNodeMessageParsed = "'abi CoreNodeMessage" +
  parsed_transactions :: "'abi CoreNodeParsedTxMessage list"

subsection \<open>Records of the data store\<close>

datatype DbEventTypeId = SmartContractLog | StxAsset | FungibleTokenAsset | NonFungibleTokenAsset

datatype DbAssetEventTypeId = Transfer | Mint | Burn

record DbBlock =
  canonical :: bool
  block_hash :: string
  index_block_hash :: string
  parent_block_hash :: string
  parent_microblock :: string
  block_height :: int
  burn_block_time :: int

record DbSmartContract =
  tx_id :: string
  contract_id :: string
  block_height :: int
  source_code :: string
  abi :: string
  canonical :: bool

record DbEventBase =
  event_index :: nat
  tx_id :: string
  block_height :: int
  canonical :: bool

record DbSmartContractEvent = DbEventBase +
  event_type :: DbEventTypeId
  contract_identifier :: string
  topic :: string
  "value" :: Buffer

record DbStxEvent = DbEventBase +
  event_type :: DbEventTypeId
  asset_event_type_id :: DbAssetEventTypeId
  sender :: "string option"
  recipient :: "string option"
  amount :: int

record DbFtEvent = DbEventBase +
  event_type :: DbEventTypeId
  asset_event_type_id :: DbAssetEventTypeId
  sender :: "string option"
  recipient :: "string option"
  asset_identifier :: string
  amount :: int

record DbNftEvent = DbEventBase +
  event_type :: DbEventTypeId
  asset_event_type_id :: DbAssetEventTypeId
  sender :: "string option"
  recipient :: "string option"
  asset_identifier :: string
  "value" :: Buffer

subsection \<open>The store, seen through its calls\<close>

text \<open>
  The seven methods of \<^verbatim>\<open>DataStore\<close> that the server calls. Each returns a promise of no
  value, so all the server learns from a call is whether it was rejected.
\<close>

datatype 'dbtx store_call =
    updateBlock DbBlock
  | updateTx 'dbtx
  | updateSmartContract DbSmartContract
  | updateSmartContractEvent DbSmartContractEvent
  | updateStxEvent DbStxEvent
  | updateFtEvent DbFtEvent
  | updateNftEvent DbNftEvent

text \<open>
  A store handle is modelled by its behaviour: given the calls it has received so far and
  the next call, it says whether that call is rejected (\<open>Some\<close> of the message) or
  fulfilled (\<open>None\<close>). The state that the server threads is the list of the calls issued on
  the handle, oldest first.
\<close>

type_synonym 'dbtx DataStore = "'dbtx store_call list \<Rightarrow> 'dbtx store_call \<Rightarrow> string option"

datatype error =
    ParseError string
  | TypeError
  | HexError string
  | SyntaxError string
  | UnexpectedCoreNodeEventType string
  | StoreError string

text \<open>
  An awaited computation of no value: it maps the calls issued so far to the error it
  throws, if any, and the calls issued when it settles.
\<close>

type_synonym 'dbtx io = "'dbtx store_call list \<Rightarrow> error option \<times> 'dbtx store_call list"

definition done_io :: "'dbtx io" where
  "done_io tr = (None, tr)"

definition throw :: "error \<Rightarrow> 'dbtx io" where
  "throw e tr = (Some e, tr)"

definition and_then :: "'dbtx io \<Rightarrow> 'dbtx io \<Rightarrow> 'dbtx io" where
  "and_then m k tr = (case m tr of (None, tr') \<Rightarrow> k tr' | (Some e, tr') \<Rightarrow> (Some e, tr'))"

definition await :: "'dbtx DataStore \<Rightarrow> 'dbtx store_call \<Rightarrow> 'dbtx io" where
  "await db c tr =
     (case db tr c of None \<Rightarrow> (None, tr @ [c]) | Some m \<Rightarrow> (Some (StoreError m), tr @ [c]))"

text \<open>The loop \<^verbatim>\<open>for (let i = 0; i < n; i++) { ... }\<close> runs its body on \<open>[0..<n]\<close>.\<close>

fun for_each :: "('a \<Rightarrow> 'dbtx io) \<Rightarrow> 'a list \<Rightarrow> 'dbtx io" where
  "for_each f [] tr = (None, tr)"
| "for_each f (i # is) tr =
     (case f i tr of (None, tr') \<Rightarrow> for_each f is tr' | (Some e, tr') \<Rightarrow> (Some e, tr'))"

section \<open>The socket server\<close>

subsection \<open>Collaborators outside the file\<close>

text \<open>
  The functions that \<^verbatim>\<open>socket-server.ts\<close> imports are parameters of the model, so that
  what is proved holds whatever they compute. A function that can throw returns a sum,
  \<open>Inl\<close> carrying the message of the exception.
  \<^item> \<open>readMessageFromStream\<close> maps the bytes that arrive on a socket to the message read
    from it, \<open>None\<close> for \<^verbatim>\<open>undefined\<close>;
  \<^item> \<open>parseMessageTransactions\<close> decodes the transactions of a message;
  \<^item> \<open>createDbTxFromCoreMsg\<close> derives the record of a transaction;
  \<^item> \<open>hexToBuffer\<close> decodes a hex string;
  \<^item> \<open>BigInt\<close> and \<open>JSON_stringify\<close> are the built-in functions of the language.
\<close>

record ('abi, 'dbtx) externals =
  readMessageFromStream :: "Buffer \<Rightarrow> string + 'abi CoreNodeMessage option"
  parseMessageTransactions :: "'abi CoreNodeMessage \<Rightarrow> string + 'abi CoreNodeMessageParsed"
  createDbTxFromCoreMsg :: "'abi CoreNodeParsedTxMessage \<Rightarrow> 'dbtx"
  hexToBuffer :: "string \<Rightarrow> string + Buffer"
  BigInt :: "string \<Rightarrow> string + int"
  JSON_stringify :: "'abi \<Rightarrow> string"

text \<open>
  A client socket: the bytes that arrive on it, and whether \<^verbatim>\<open>destroy()\<close> has been called
  on it.
\<close>

record Readable =
  incoming :: Buffer
  destroyed :: bool

subsection \<open>\<^verbatim>\<open>handleClientMessage\<close>\<close>

text \<open>
  The contract record of lines 53 to 60, for a transaction whose payload is a smart
  contract of name \<open>nm\<close> and code \<open>code\<close>.
\<close>

definition smart_contract_entry ::
  "('abi, 'dbtx) externals \<Rightarrow> 'abi CoreNodeMessageParsed \<Rightarrow> 'abi CoreNodeParsedTxMessage \<Rightarrow>
   string \<Rightarrow> string \<Rightarrow> DbSmartContract"
where
  "smart_contract_entry ext parsedMsg tx nm code =
     (let contractId = sender_address tx @ ''.'' @ nm in
      \<lparr>DbSmartContract.tx_id = CoreNodeTxMessage.txid (core_tx tx),
       contract_id = contractId,
       block_height = CoreNodeMessage.block_height parsedMsg,
       source_code = code,
       abi = JSON_stringify ext (contract_abi (core_tx tx)),
       canonical = True\<rparr>)"

text \<open>
  The body of the loop over the transactions (lines 49 to 61). The loop counts up to
  \<^verbatim>\<open>parsedMsg.transactions.length\<close> and reads \<^verbatim>\<open>parsedMsg.parsed_transactions[i]\<close>. Where
  that array is too short the transaction is \<^verbatim>\<open>undefined\<close>; \<open>createDbTxFromCoreMsg\<close> is a
  parameter on transactions, and the model has the \<^verbatim>\<open>TypeError\<close> of reading a property of
  \<^verbatim>\<open>undefined\<close> thrown there, before any call on the store. What is proved of the
  transactions is for a parser that returns the two arrays with the same length.
\<close>

definition tx_body ::
  "('abi, 'dbtx) externals \<Rightarrow> 'dbtx DataStore \<Rightarrow> 'abi CoreNodeMessageParsed \<Rightarrow> nat \<Rightarrow> 'dbtx io"
where
  "tx_body ext db parsedMsg i =
     (if i < length (parsed_transactions parsedMsg) then
        (let tx = parsed_transactions parsedMsg ! i in
         and_then (await db (updateTx (createDbTxFromCoreMsg ext tx)))
           (case payload (raw_tx tx) of
              SmartContract nm code \<Rightarrow>
                await db (updateSmartContract (smart_contract_entry ext parsedMsg tx nm code))
            | OtherPayload \<Rightarrow> done_io))
      else throw TypeError)"

text \<open>
  The switch over the type of an event (lines 71 to 170). Every branch but the last builds
  its entry, which evaluates \<^verbatim>\<open>hexToBuffer\<close> or \<^verbatim>\<open>BigInt\<close>, and hands it to one method of
  the store; \<open>event_switch\<close> gives that call, or the error thrown before any call is made.
  \<open>extend\<close> is the spread \<^verbatim>\<open>...dbEvent\<close>.
\<close>

definition with_value :: "string + 'a \<Rightarrow> (string \<Rightarrow> error) \<Rightarrow> ('a \<Rightarrow> 'c) \<Rightarrow> error + 'c" where
  "with_value r err k = (case r of Inl m \<Rightarrow> Inl (err m) | Inr v \<Rightarrow> Inr (k v))"

fun event_switch ::
  "('abi, 'dbtx) externals \<Rightarrow> DbEventBase \<Rightarrow> CoreNodeEventBody \<Rightarrow> error + 'dbtx store_call"
where
  "event_switch ext dbEvent (ContractEvent e) =
     with_value (hexToBuffer ext (contract_event.raw_value e)) HexError (\<lambda>v.
       updateSmartContractEvent (DbEventBase.extend dbEvent
         \<lparr>DbSmartContractEvent.event_type = SmartContractLog,
          contract_identifier = contract_event.contract_identifier e,
          topic = contract_event.topic e,
          value = v\<rparr>))"
| "event_switch ext dbEvent (StxTransferEvent e) =
     with_value (BigInt ext (stx_transfer_event.amount e)) SyntaxError (\<lambda>n.
       updateStxEvent (DbEventBase.extend dbEvent
         \<lparr>DbStxEvent.event_type = StxAsset,
          asset_event_type_id = Transfer,
          sender = Some (stx_transfer_event.sender e),
          recipient = Some (stx_transfer_event.recipient e),
          amount = n\<rparr>))"
| "event_switch ext dbEvent (StxMintEvent e) =
     with_value (BigInt ext (stx_mint_event.amount e)) SyntaxError (\<lambda>n.
       updateStxEvent (DbEventBase.extend dbEvent
         \<lparr>DbStxEvent.event_type = StxAsset,
          asset_event_type_id = Mint,
          sender = None,
          recipient = Some (stx_mint_event.recipient e),
          amount = n\<rparr>))"
| "event_switch ext dbEvent (StxBurnEvent e) =
     with_value (BigInt ext (stx_burn_event.amount e)) SyntaxError (\<lambda>n.
       updateStxEvent (DbEventBase.extend dbEvent
         \<lparr>DbStxEvent.event_type = StxAsset,
          asset_event_type_id = Burn,
          sender = Some (stx_burn_event.sender e),
          recipient = None,
          amount = n\<rparr>))"
| "event_switch ext dbEvent (FtTransferEvent e) =
     with_value (BigInt ext (ft_transfer_event.amount e)) SyntaxError (\<lambda>n.
       updateFtEvent (DbEventBase.extend dbEvent
         \<lparr>DbFtEvent.event_type = FungibleTokenAsset,
          asset_event_type_id = Transfer,
          sender = Some (ft_transfer_event.sender e),
          recipient = Some (ft_transfer_event.recipient e),
          asset_identifier = ft_transfer_event.asset_identifier e,
          amount = n\<rparr>))"
| "event_switch ext dbEvent (FtMintEvent e) =
     with_value (BigInt ext (ft_mint_event.amount e)) SyntaxError (\<lambda>n.
       updateFtEvent (DbEventBase.extend dbEvent
         \<lparr>DbFtEvent.event_type = FungibleTokenAsset,
          asset_event_type_id = Mint,
          sender = None,
          recipient = Some (ft_mint_event.recipient e),
          asset_identifier = ft_mint_event.asset_identifier e,
          amount = n\<rparr>))"
| "event_switch ext dbEvent (NftTransferEvent e) =
     with_value (hexToBuffer ext (nft_transfer_event.raw_value e)) HexError (\<lambda>v.
       updateNftEvent (DbEventBase.extend dbEvent
         \<lparr>DbNftEvent.event_type = NonFungibleTokenAsset,
          asset_event_type_id = Transfer,
          sender = Some (nft_transfer_event.sender e),
          recipient = Some (nft_transfer_event.recipient e),
          asset_identifier = nft_transfer_event.asset_identifier e,
          value = v\<rparr>))"
| "event_switch ext dbEvent (NftMintEvent e) =
     with_value (hexToBuffer ext (nft_mint_event.raw_value e)) HexError (\<lambda>v.
       updateNftEvent (DbEventBase.extend dbEvent
         \<lparr>DbNftEvent.event_type = NonFungibleTokenAsset,
          asset_event_type_id = Mint,
          sender = None,
          recipient = Some (nft_mint_event.recipient e),
          asset_identifier = nft_mint_event.asset_identifier e,
          value = v\<rparr>))"
| "event_switch ext dbEvent (UnexpectedEvent t) = Inl (UnexpectedCoreNodeEventType t)"

text \<open>The base of an event record (lines 65 to 70), for the event at index \<open>i\<close>.\<close>

definition dbEvent_base :: "'abi CoreNodeMessageParsed \<Rightarrow> nat \<Rightarrow> DbEventBase" where
  "dbEvent_base parsedMsg i =
     (let event = events parsedMsg ! i in
      \<lparr>event_index = i,
       tx_id = CoreNodeEvent.txid event,
       block_height = CoreNodeMessage.block_height parsedMsg,
       canonical = True\<rparr>)"

text \<open>The body of the loop over the events (lines 64 to 170).\<close>

definition event_body ::
  "('abi, 'dbtx) externals \<Rightarrow> 'dbtx DataStore \<Rightarrow> 'abi CoreNodeMessageParsed \<Rightarrow> nat \<Rightarrow> 'dbtx io"
where
  "event_body ext db parsedMsg i =
     (let event = events parsedMsg ! i;
          dbEvent = dbEvent_base parsedMsg i
      in case event_switch ext dbEvent (body event) of
           Inl e \<Rightarrow> throw e
         | Inr entry \<Rightarrow> await db entry)"

text \<open>The block record of lines 38 to 46.\<close>

definition dbBlock_entry :: "'abi CoreNodeMessageParsed \<Rightarrow> DbBlock" where
  "dbBlock_entry parsedMsg =
     \<lparr>DbBlock.canonical = True,
      block_hash = CoreNodeMessage.block_hash parsedMsg,
      index_block_hash = CoreNodeMessage.index_block_hash parsedMsg,
      parent_block_hash = CoreNodeMessage.parent_block_hash parsedMsg,
      parent_microblock = CoreNodeMessage.parent_microblock parsedMsg,
      block_height = CoreNodeMessage.block_height parsedMsg,
      burn_block_time = CoreNodeMessage.burn_block_time parsedMsg\<rparr>"

text \<open>Lines 37 to 171: what is done with a message that has been read.\<close>

definition apply_message ::
  "('abi, 'dbtx) externals \<Rightarrow> 'dbtx DataStore \<Rightarrow> 'abi CoreNodeMessage \<Rightarrow> 'dbtx io"
where
  "apply_message ext db msg =
     (case parseMessageTransactions ext msg of
        Inl m \<Rightarrow> throw (ParseError m)
      | Inr parsedMsg \<Rightarrow>
          and_then (await db (updateBlock (dbBlock_entry parsedMsg)))
            (and_then
              (for_each (tx_body ext db parsedMsg) [0..<length (transactions parsedMsg)])
              (for_each (event_body ext db parsedMsg) [0..<length (events parsedMsg)])))"

text \<open>
  The settled promise of \<^verbatim>\<open>handleClientMessage\<close>: \<open>rejection\<close> is \<open>None\<close> when it is
  fulfilled and the error when it is rejected; with it the calls issued on the store and the
  socket as the function leaves them. An exception of \<^verbatim>\<open>readMessageFromStream\<close> is caught
  (lines 31 to 36).
\<close>

record 'dbtx settled =
  rejection :: "error option"
  calls :: "'dbtx store_call list"
  socket :: Readable

definition handleClientMessage ::
  "('abi, 'dbtx) externals \<Rightarrow> Readable \<Rightarrow> 'dbtx DataStore \<Rightarrow> 'dbtx store_call list \<Rightarrow> 'dbtx settled"
where
  "handleClientMessage ext clientSocket db tr =
     (case readMessageFromStream ext (incoming clientSocket) of
        Inr None \<Rightarrow> \<lparr>rejection = None, calls = tr, socket = clientSocket\<rparr>
      | Inr (Some msg) \<Rightarrow>
          (case apply_message ext db msg tr of
             (r, tr') \<Rightarrow> \<lparr>rejection = r, calls = tr', socket = clientSocket\<rparr>)
      | Inl err \<Rightarrow>
          \<lparr>rejection = None, calls = tr, socket = clientSocket\<lparr>destroyed := True\<rparr>\<rparr>)"

subsection \<open>The steps of a message\<close>

text \<open>
  No call on the store returns a value, so what \<^verbatim>\<open>handleClientMessage\<close> goes on to do
  after a call depends on the store only through its rejecting the call. The steps that a
  parsed message asks for are therefore a list fixed by the message: a call on the store
  (\<open>Inr\<close>) or an exception thrown by the server itself (\<open>Inl\<close>). \<open>run\<close> takes the steps
  one after another until one fails.
\<close>

type_synonym 'dbtx step = "error + 'dbtx store_call"

fun run :: "'dbtx DataStore \<Rightarrow> 'dbtx step list \<Rightarrow> 'dbtx io" where
  "run db [] tr = (None, tr)"
| "run db (Inl e # ss) tr = (Some e, tr)"
| "run db (Inr c # ss) tr =
     (case db tr c of
        None \<Rightarrow> run db ss (tr @ [c])
      | Some m \<Rightarrow> (Some (StoreError m), tr @ [c]))"

definition tx_steps ::
  "('abi, 'dbtx) externals \<Rightarrow> 'abi CoreNodeMessageParsed \<Rightarrow> nat \<Rightarrow> 'dbtx step list"
where
  "tx_steps ext parsedMsg i =
     (if i < length (parsed_transactions parsedMsg) then
        (let tx = parsed_transactions parsedMsg ! i in
         Inr (updateTx (createDbTxFromCoreMsg ext tx)) #
           (case payload (raw_tx tx) of
              SmartContract nm code \<Rightarrow>
                [Inr (updateSmartContract (smart_contract_entry ext parsedMsg tx nm code))]
            | OtherPayload \<Rightarrow> []))
      else [Inl TypeError])"

definition event_step ::
  "('abi, 'dbtx) externals \<Rightarrow> 'abi CoreNodeMessageParsed \<Rightarrow> nat \<Rightarrow> 'dbtx step"
where
  "event_step ext parsedMsg i =
     event_switch ext (dbEvent_base parsedMsg i) (body (events parsedMsg ! i))"

definition message_steps ::
  "('abi, 'dbtx) externals \<Rightarrow> 'abi CoreNodeMessageParsed \<Rightarrow> 'dbtx step list"
where
  "message_steps ext parsedMsg =
     Inr (updateBlock (dbBlock_entry parsedMsg)) #
     concat (map (tx_steps ext parsedMsg) [0..<length (transactions parsedMsg)]) @
     map (event_step ext parsedMsg) [0..<length (events parsedMsg)]"

text \<open>The calls among some steps, in order.\<close>

definition writes_of :: "'dbtx step list \<Rightarrow> 'dbtx store_call list" where
  "writes_of ss = List.map_filter (\<lambda>s. case s of Inl e \<Rightarrow> None | Inr c \<Rightarrow> Some c) ss"

section \<open>What the specification says of the writes\<close>

text \<open>
  The order of the writes of one message as section 4.3 of the specification has it: the
  block record; then, transaction by transaction, the transaction record followed by the
  contract record when the payload deploys a contract; then, event by event, the record
  that the event is classified as. An event that cannot be classified has no record.
  \<open>spec_writes_upto\<close> stops after the first \<open>k\<close> events.
\<close>

definition spec_tx_writes ::
  "('abi, 'dbtx) externals \<Rightarrow> 'abi CoreNodeMessageParsed \<Rightarrow> 'abi CoreNodeParsedTxMessage \<Rightarrow>
   'dbtx store_call list"
where
  "spec_tx_writes ext parsedMsg tx =
     updateTx (createDbTxFromCoreMsg ext tx) #
       (case payload (raw_tx tx) of
          SmartContract nm code \<Rightarrow>
            [updateSmartContract (smart_contract_entry ext parsedMsg tx nm code)]
        | OtherPayload \<Rightarrow> [])"

definition spec_event_write ::
  "('abi, 'dbtx) externals \<Rightarrow> 'abi CoreNodeMessageParsed \<Rightarrow> nat \<times> CoreNodeEvent \<Rightarrow>
   'dbtx store_call option"
where
  "spec_event_write ext parsedMsg ke =
     (case ke of (k, event) \<Rightarrow>
        (case event_switch ext
                \<lparr>event_index = k, tx_id = CoreNodeEvent.txid event,
                 block_height = CoreNodeMessage.block_height parsedMsg, canonical = True\<rparr>
                (body event) of
           Inl e \<Rightarrow> None
         | Inr entry \<Rightarrow> Some entry))"

definition spec_writes_upto ::
  "('abi, 'dbtx) externals \<Rightarrow> 'abi CoreNodeMessageParsed \<Rightarrow> nat \<Rightarrow> 'dbtx store_call list"
where
  "spec_writes_upto ext parsedMsg k =
     [updateBlock (dbBlock_entry parsedMsg)] @
     concat (map (spec_tx_writes ext parsedMsg) (parsed_transactions parsedMsg)) @
     List.map_filter (spec_event_write ext parsedMsg) (take k (enumerate 0 (events parsedMsg)))"

definition spec_writes ::
  "('abi, 'dbtx) externals \<Rightarrow> 'abi CoreNodeMessageParsed \<Rightarrow> 'dbtx store_call list"
where
  "spec_writes ext parsedMsg = spec_writes_upto ext parsedMsg (length (events parsedMsg))"

text \<open>
  \<open>accepts db tr cs\<close>: the store fulfils the calls \<open>cs\<close>, issued one after another after
  the calls \<open>tr\<close>.
\<close>

fun accepts :: "'dbtx DataStore \<Rightarrow> 'dbtx store_call list \<Rightarrow> 'dbtx store_call list \<Rightarrow> bool" where
  "accepts db tr [] = True"
| "accepts db tr (c # cs) = (db tr c = None \<and> accepts db (tr @ [c]) cs)"

text \<open>Projections of a call on the store: the record it writes, by kind.\<close>

definition event_base_of :: "'dbtx store_call \<Rightarrow> DbEventBase option" where
  "event_base_of c =
     (case c of
        updateSmartContractEvent r \<Rightarrow> Some (DbEventBase.truncate r)
      | updateStxEvent r \<Rightarrow> Some (DbEventBase.truncate r)
      | updateFtEvent r \<Rightarrow> Some (DbEventBase.truncate r)
      | updateNftEvent r \<Rightarrow> Some (DbEventBase.truncate r)
      | _ \<Rightarrow> None)"

definition event_bases :: "'dbtx store_call list \<Rightarrow> DbEventBase list" where
  "event_bases cs = List.map_filter event_base_of cs"

definition event_calls :: "'dbtx store_call list \<Rightarrow> 'dbtx store_call list" where
  "event_calls cs = filter (\<lambda>c. event_base_of c \<noteq> None) cs"

text \<open>The bytes of the value of a contract log or of a non-fungible token event.\<close>

definition value_of :: "'dbtx store_call \<Rightarrow> Buffer option" where
  "value_of c =
     (case c of
        updateSmartContractEvent r \<Rightarrow> Some (DbSmartContractEvent.value r)
      | updateNftEvent r \<Rightarrow> Some (DbNftEvent.value r)
      | _ \<Rightarrow> None)"

definition contract_of :: "'dbtx store_call \<Rightarrow> DbSmartContract option" where
  "contract_of c = (case c of updateSmartContract r \<Rightarrow> Some r | _ \<Rightarrow> None)"

definition contract_records :: "'dbtx store_call list \<Rightarrow> DbSmartContract list" where
  "contract_records cs = List.map_filter contract_of cs"

text \<open>
  The canonical flag of the record that a call writes; \<open>None\<close> for the transaction record,
  which \<^verbatim>\<open>createDbTxFromCoreMsg\<close> builds.
\<close>

definition canonical_of :: "'dbtx store_call \<Rightarrow> bool option" where
  "canonical_of c =
     (case c of
        updateBlock r \<Rightarrow> Some (DbBlock.canonical r)
      | updateTx r \<Rightarrow> None
      | updateSmartContract r \<Rightarrow> Some (DbSmartContract.canonical r)
      | updateSmartContractEvent r \<Rightarrow> Some (DbEventBase.canonical r)
      | updateStxEvent r \<Rightarrow> Some (DbEventBase.canonical r)
      | updateFtEvent r \<Rightarrow> Some (DbEventBase.canonical r)
      | updateNftEvent r \<Rightarrow> Some (DbEventBase.canonical r))"

definition is_deployment :: "'abi CoreNodeParsedTxMessage \<Rightarrow> bool" where
  "is_deployment tx = (case payload (raw_tx tx) of SmartContract nm code \<Rightarrow> True | OtherPayload \<Rightarrow> False)"

section \<open>Decoding hex strings\<close>

text \<open>
  Modelled from the spec: \<^verbatim>\<open>hexToBuffer\<close> of \<^verbatim>\<open>src/helpers.ts\<close>, which the socket server
  imports and which is not among the sources. The specification says that a value is
  ``decoded from a hex-encoded byte string into raw bytes'', that hex-encoded fields
  ``decode to the exact byte sequence represented by the hex string, including the empty
  string decoding to zero bytes'', and gives \<^verbatim>\<open>"0x0100"\<close> as the string of the bytes 0x01,
  0x00. So: the empty string is no bytes; otherwise the string is \<^verbatim>\<open>0x\<close> followed by two
  hex digits for each byte. The specification is silent on every other string; the model
  makes them errors.
\<close>

definition hex_digit :: "char \<Rightarrow> nat option" where
  "hex_digit c =
     (let n = (of_char c :: nat) in
      if 48 \<le> n \<and> n \<le> 57 then Some (n - 48)
      else if 97 \<le> n \<and> n \<le> 102 then Some (n - 87)
      else if 65 \<le> n \<and> n \<le> 70 then Some (n - 55)
      else None)"

fun hex_pairs :: "string \<Rightarrow> string + Buffer" where
  "hex_pairs [] = Inr []"
| "hex_pairs [c] = Inl ''odd number of hex digits''"
| "hex_pairs (h # l # cs) =
     (case (hex_digit h, hex_digit l) of
        (Some a, Some b) \<Rightarrow>
          (case hex_pairs cs of Inl m \<Rightarrow> Inl m | Inr bs \<Rightarrow> Inr (of_nat (16 * a + b) # bs))
      | _ \<Rightarrow> Inl ''not a hex digit'')"

definition helpers_hexToBuffer :: "string \<Rightarrow> string + Buffer" where
  "helpers_hexToBuffer hex =
     (if hex = [] then Inr []
      else if take 2 hex = ''0x'' then hex_pairs (drop 2 hex)
      else Inl ''missing 0x prefix'')"

text \<open>The hex string that represents a byte sequence: \<^verbatim>\<open>0x\<close>, then two digits a byte.\<close>

definition hex_char :: "nat \<Rightarrow> char" where
  "hex_char n = (if n < 10 then char_of (48 + n) else char_of (87 + n))"

definition hex_of_byte :: "8 word \<Rightarrow> string" where
  "hex_of_byte b = [hex_char (unat b div 16), hex_char (unat b mod 16)]"

definition hex_string :: "Buffer \<Rightarrow> string" where
  "hex_string bs = ''0x'' @ concat (map hex_of_byte bs)"

section \<open>The server and its queue\<close>

text \<open>
  \<^verbatim>\<open>startEventSocketServer\<close> hands every accepted socket to the message handler, which by
  default is the function that \<^verbatim>\<open>createMessageProcessorQueue\<close> returns: it adds the task
  \<^verbatim>\<open>() => handleClientMessage(clientSocket, db)\<close> to a \<^verbatim>\<open>PQueue\<close> (line 180). The task
  holds the socket; the store handle is the one that the server was started with.

  A started task is suspended at each \<^verbatim>\<open>await\<close>: while it waits for the message to be
  read, and then before each of its remaining steps.
\<close>

datatype 'dbtx job =
    Reading Readable
  | Applying Readable "'dbtx step list"

record 'dbtx server =
  queued :: "Readable list"
  active :: "'dbtx job list"
  store_calls :: "'dbtx store_call list"
  finished :: "(Readable \<times> error option) list"

definition idle_server :: "'dbtx server" where
  "idle_server = \<lparr>queued = [], active = [], store_calls = [], finished = []\<rparr>"

text \<open>
  One resumption of a job, on the calls issued so far: the job goes on (\<open>Inl\<close>), or it
  settles (\<open>Inr\<close>, with the socket and the rejection, \<open>None\<close> when fulfilled). Apart from
  the suspension it is \<^verbatim>\<open>handleClientMessage\<close> again: resumed until it settles, a task
  leaves the calls and the outcome of that function (lemmas \<open>resume_goes_on\<close> and
  \<open>resume_settles\<close> below).
\<close>

fun resume ::
  "('abi, 'dbtx) externals \<Rightarrow> 'dbtx DataStore \<Rightarrow> 'dbtx job \<Rightarrow> 'dbtx store_call list \<Rightarrow>
   ('dbtx job + Readable \<times> error option) \<times> 'dbtx store_call list"
where
  "resume ext db (Reading clientSocket) tr =
     (case readMessageFromStream ext (incoming clientSocket) of
        Inr None \<Rightarrow> (Inr (clientSocket, None), tr)
      | Inr (Some msg) \<Rightarrow>
          (case parseMessageTransactions ext msg of
             Inl m \<Rightarrow> (Inr (clientSocket, Some (ParseError m)), tr)
           | Inr parsedMsg \<Rightarrow> (Inl (Applying clientSocket (message_steps ext parsedMsg)), tr))
      | Inl err \<Rightarrow> (Inr (clientSocket\<lparr>destroyed := True\<rparr>, None), tr))"
| "resume ext db (Applying clientSocket []) tr = (Inr (clientSocket, None), tr)"
| "resume ext db (Applying clientSocket (Inl e # ss)) tr = (Inr (clientSocket, Some e), tr)"
| "resume ext db (Applying clientSocket (Inr c # ss)) tr =
     (case db tr c of
        None \<Rightarrow> (Inl (Applying clientSocket ss), tr @ [c])
      | Some m \<Rightarrow> (Inr (clientSocket, Some (StoreError m)), tr @ [c]))"

text \<open>
  Modelled from the spec: the scheduling of \<^verbatim>\<open>PQueue\<close>, a library that is not among the
  sources. Section 4.2 of the specification describes an admission gate that starts queued
  tasks in the order of their submission, holds a task back while as many tasks as the
  concurrency limit are unsettled, and goes on after a task that fails. What happens in
  the server is a sequence of actions: a connection is accepted and its task added to the
  queue (\<open>Connect\<close>), the queue starts its oldest task (\<open>Start\<close>), or a started task is
  resumed (\<open>Resume\<close>, with its position among the started tasks). An action that is not
  possible leaves the server as it is.
\<close>

datatype action = Connect Readable | Start | Resume nat

fun fire ::
  "('abi, 'dbtx) externals \<Rightarrow> 'dbtx DataStore \<Rightarrow> nat \<Rightarrow> action \<Rightarrow> 'dbtx server \<Rightarrow> 'dbtx server"
where
  "fire ext db concurrency (Connect clientSocket) s = s\<lparr>queued := queued s @ [clientSocket]\<rparr>"
| "fire ext db concurrency Start s =
     (case queued s of
        [] \<Rightarrow> s
      | clientSocket # rest \<Rightarrow>
          if length (active s) < concurrency
          then s\<lparr>queued := rest, active := active s @ [Reading clientSocket]\<rparr>
          else s)"
| "fire ext db concurrency (Resume j) s =
     (if j < length (active s) then
        (case resume ext db (active s ! j) (store_calls s) of
           (Inl job', tr') \<Rightarrow> s\<lparr>active := (active s)[j := job'], store_calls := tr'\<rparr>
         | (Inr fin, tr') \<Rightarrow>
             s\<lparr>active := take j (active s) @ drop (Suc j) (active s),
               store_calls := tr',
               finished := finished s @ [fin]\<rparr>)
      else s)"

fun exec ::
  "('abi, 'dbtx) externals \<Rightarrow> 'dbtx DataStore \<Rightarrow> nat \<Rightarrow> action list \<Rightarrow> 'dbtx server \<Rightarrow> 'dbtx server"
where
  "exec ext db concurrency [] s = s"
| "exec ext db concurrency (a # as) s = exec ext db concurrency as (fire ext db concurrency a s)"

text \<open>Line 178: \<^verbatim>\<open>new PQueue({ concurrency: 1 })\<close>.\<close>

definition processorQueue_concurrency :: nat where
  "processorQueue_concurrency = 1"

definition server_after ::
  "('abi, 'dbtx) externals \<Rightarrow> 'dbtx DataStore \<Rightarrow> action list \<Rightarrow> 'dbtx server"
where
  "server_after ext db acts = exec ext db processorQueue_concurrency acts idle_server"

text \<open>The sockets accepted in the course of some actions, in order.\<close>

definition connections :: "action list \<Rightarrow> Readable list" where
  "connections acts =
     List.map_filter (\<lambda>a. case a of Connect clientSocket \<Rightarrow> Some clientSocket | _ \<Rightarrow> None) acts"

text \<open>
  Handling sockets one after the other, each to its end before the next begins: the calls
  left on the store, and the outcomes.
\<close>

fun serial_calls ::
  "('abi, 'dbtx) externals \<Rightarrow> 'dbtx DataStore \<Rightarrow> Readable list \<Rightarrow> 'dbtx store_call list \<Rightarrow>
   'dbtx store_call list"
where
  "serial_calls ext db [] tr = tr"
| "serial_calls ext db (clientSocket # rest) tr =
     serial_calls ext db rest (calls (handleClientMessage ext clientSocket db tr))"

fun serial_outcomes ::
  "('abi, 'dbtx) externals \<Rightarrow> 'dbtx DataStore \<Rightarrow> Readable list \<Rightarrow> 'dbtx store_call list \<Rightarrow>
   (Readable \<times> error option) list"
where
  "serial_outcomes ext db [] tr = []"
| "serial_outcomes ext db (clientSocket # rest) tr =
     (let r = handleClientMessage ext clientSocket db tr
      in (socket r, rejection r) # serial_outcomes ext db rest (calls r))"

text \<open>
  The socket that a started task holds, and the task run to its end without suspension:
  the outcome and the calls left on the store.
\<close>

fun job_socket :: "'dbtx job \<Rightarrow> Readable" where
  "job_socket (Reading clientSocket) = clientSocket"
| "job_socket (Applying clientSocket ss) = clientSocket"

fun complete ::
  "('abi, 'dbtx) externals \<Rightarrow> 'dbtx DataStore \<Rightarrow> 'dbtx job \<Rightarrow> 'dbtx store_call list \<Rightarrow>
   (Readable \<times> error option) \<times> 'dbtx store_call list"
where
  "complete ext db (Reading clientSocket) tr =
     (let r = handleClientMessage ext clientSocket db tr in ((socket r, rejection r), calls r))"
| "complete ext db (Applying clientSocket ss) tr =
     (case run db ss tr of (e, tr') \<Rightarrow> ((clientSocket, e), tr'))"

section \<open>Concrete collaborators and messages\<close>

text \<open>
  Instances of the parameters, on which the theorems are evaluated. \<open>decimal_BigInt\<close> is
  \<^verbatim>\<open>BigInt\<close> on the strings of decimal digits, with an optional sign; it takes every other
  string as a \<^verbatim>\<open>SyntaxError\<close>, though \<^verbatim>\<open>BigInt\<close> also reads surrounding white space and
  the prefixes \<^verbatim>\<open>0x\<close>, \<^verbatim>\<open>0o\<close> and \<^verbatim>\<open>0b\<close>.
\<close>

definition decimal_digit :: "char \<Rightarrow> nat option" where
  "decimal_digit c =
     (let n = (of_char c :: nat) in if 48 \<le> n \<and> n \<le> 57 then Some (n - 48) else None)"

fun decimal_digits :: "nat \<Rightarrow> string \<Rightarrow> nat option" where
  "decimal_digits acc [] = Some acc"
| "decimal_digits acc (c # cs) =
     (case decimal_digit c of None \<Rightarrow> None | Some d \<Rightarrow> decimal_digits (10 * acc + d) cs)"

definition decimal_BigInt :: "string \<Rightarrow> string + int" where
  "decimal_BigInt s =
     (case s of
        [] \<Rightarrow> Inr 0
      | c # cs \<Rightarrow>
          if c = CHR ''-'' \<and> cs \<noteq> [] then
            (case decimal_digits 0 cs of None \<Rightarrow> Inl ''Cannot convert to a BigInt''
             | Some n \<Rightarrow> Inr (- int n))
          else if c = CHR ''+'' \<and> cs \<noteq> [] then
            (case decimal_digits 0 cs of None \<Rightarrow> Inl ''Cannot convert to a BigInt''
             | Some n \<Rightarrow> Inr (int n))
          else
            (case decimal_digits 0 s of None \<Rightarrow> Inl ''Cannot convert to a BigInt''
             | Some n \<Rightarrow> Inr (int n)))"

text \<open>
  A message of height 100 with one transaction, which deploys the contract \<^verbatim>\<open>foo\<close>, and
  the two events of the scenario of the specification: an STX mint of 500 to \<^verbatim>\<open>SPabc\<close> and
  a contract log of value \<^verbatim>\<open>0x0100\<close>. The second message has an event of an unknown type
  between the two.
\<close>

definition a_mint :: stx_mint_event where
  "a_mint = \<lparr>stx_mint_event.recipient = ''SPabc'', amount = ''500''\<rparr>"

definition a_log :: contract_event where
  "a_log =
     \<lparr>contract_event.contract_identifier = ''SPabc.foo'', topic = ''print'',
      raw_value = ''0x0100''\<rparr>"

definition mint_event :: CoreNodeEvent where
  "mint_event = \<lparr>CoreNodeEvent.txid = ''0x01'', body = StxMintEvent a_mint\<rparr>"

definition log_event :: CoreNodeEvent where
  "log_event = \<lparr>CoreNodeEvent.txid = ''0x01'', body = ContractEvent a_log\<rparr>"

definition odd_event :: CoreNodeEvent where
  "odd_event = \<lparr>CoreNodeEvent.txid = ''0x01'', body = UnexpectedEvent ''stx_lock_event''\<rparr>"

definition scenario_message :: "string CoreNodeMessage" where
  "scenario_message =
     \<lparr>CoreNodeMessage.block_hash = ''0xb1'',
      index_block_hash = ''0xb2'',
      parent_block_hash = ''0xb0'',
      parent_microblock = ''0x00'',
      block_height = 100,
      burn_block_time = 1600000000,
      transactions = [\<lparr>CoreNodeTxMessage.txid = ''0x01'', contract_abi = ''{}''\<rparr>],
      events = [mint_event, log_event]\<rparr>"

definition odd_message :: "string CoreNodeMessage" where
  "odd_message = scenario_message\<lparr>events := [mint_event, odd_event, log_event]\<rparr>"

text \<open>Payloads of the six other kinds.\<close>

definition a_transfer :: stx_transfer_event where
  "a_transfer =
     \<lparr>stx_transfer_event.sender = ''SPabc'', recipient = ''SPdef'', amount = ''25''\<rparr>"

definition a_burn :: stx_burn_event where
  "a_burn = \<lparr>stx_burn_event.sender = ''SPabc'', amount = ''7''\<rparr>"

definition a_ft_transfer :: ft_transfer_event where
  "a_ft_transfer =
     \<lparr>ft_transfer_event.sender = ''SPabc'', recipient = ''SPdef'',
      asset_identifier = ''SPabc.foo::coin'', amount = ''12''\<rparr>"

definition a_ft_mint :: ft_mint_event where
  "a_ft_mint =
     \<lparr>ft_mint_event.recipient = ''SPdef'', asset_identifier = ''SPabc.foo::coin'',
      amount = ''1000''\<rparr>"

definition a_nft_transfer :: nft_transfer_event where
  "a_nft_transfer =
     \<lparr>nft_transfer_event.recipient = ''SPdef'', sender = ''SPabc'',
      asset_identifier = ''SPabc.foo::card'', raw_value = ''0x2a''\<rparr>"

definition a_nft_mint :: nft_mint_event where
  "a_nft_mint =
     \<lparr>nft_mint_event.recipient = ''SPabc'', asset_identifier = ''SPabc.foo::card'',
      raw_value = []\<rparr>"

text \<open>
  A third message: its first event is an STX transfer, a recognised type, whose amount
  \<^verbatim>\<open>1.5\<close> is not the decimal string of an integer, so that \<^verbatim>\<open>BigInt\<close> throws a
  \<^verbatim>\<open>SyntaxError\<close> on it.
\<close>

definition fraction_transfer :: stx_transfer_event where
  "fraction_transfer =
     \<lparr>stx_transfer_event.sender = ''SPabc'', recipient = ''SPdef'', amount = ''1.5''\<rparr>"

definition fraction_event :: CoreNodeEvent where
  "fraction_event =
     \<lparr>CoreNodeEvent.txid = ''0x01'', body = StxTransferEvent fraction_transfer\<rparr>"

definition fraction_message :: "string CoreNodeMessage" where
  "fraction_message = scenario_message\<lparr>events := [fraction_event, log_event]\<rparr>"

text \<open>
  A framing decoder for the examples: no bytes are no message, a first byte 1, 2 or 3
  frames one of the three messages above, anything else is malformed.
\<close>

definition example_read :: "Buffer \<Rightarrow> string + string CoreNodeMessage option" where
  "example_read bs =
     (case bs of
        [] \<Rightarrow> Inr None
      | b # rest \<Rightarrow>
          if b = 1 then Inr (Some scenario_message)
          else if b = 2 then Inr (Some odd_message)
          else if b = 3 then Inr (Some fraction_message)
          else Inl ''malformed message'')"

definition example_parse :: "string CoreNodeMessage \<Rightarrow> string + string CoreNodeMessageParsed" where
  "example_parse msg =
     Inr (CoreNodeMessage.extend msg
       \<lparr>parsed_transactions =
          map (\<lambda>tx. \<lparr>core_tx = tx,
                     raw_tx = \<lparr>payload = SmartContract ''foo'' ''(print 1)''\<rparr>,
                     sender_address = ''SPabc''\<rparr>)
            (transactions msg)\<rparr>)"

definition scenario_parsed :: "string CoreNodeMessageParsed" where
  "scenario_parsed =
     CoreNodeMessage.extend scenario_message
       \<lparr>parsed_transactions =
          [\<lparr>core_tx = \<lparr>CoreNodeTxMessage.txid = ''0x01'', contract_abi = ''{}''\<rparr>,
            raw_tx = \<lparr>payload = SmartContract ''foo'' ''(print 1)''\<rparr>,
            sender_address = ''SPabc''\<rparr>]\<rparr>"

definition odd_parsed :: "string CoreNodeMessageParsed" where
  "odd_parsed =
     CoreNodeMessage.extend odd_message
       \<lparr>parsed_transactions = parsed_transactions scenario_parsed\<rparr>"

definition fraction_parsed :: "string CoreNodeMessageParsed" where
  "fraction_parsed =
     CoreNodeMessage.extend fraction_message
       \<lparr>parsed_transactions = parsed_transactions scenario_parsed\<rparr>"

definition example_ext :: "(string, string) externals" where
  "example_ext =
     \<lparr>readMessageFromStream = example_read,
      parseMessageTransactions = example_parse,
      createDbTxFromCoreMsg = (\<lambda>tx. CoreNodeTxMessage.txid (core_tx tx)),
      hexToBuffer = helpers_hexToBuffer,
      BigInt = decimal_BigInt,
      JSON_stringify = (\<lambda>abi. abi)\<rparr>"

definition scenario_socket :: Readable where
  "scenario_socket = \<lparr>incoming = [1], destroyed = False\<rparr>"

definition odd_socket :: Readable where
  "odd_socket = \<lparr>incoming = [2], destroyed = False\<rparr>"

definition empty_socket :: Readable where
  "empty_socket = \<lparr>incoming = [], destroyed = False\<rparr>"

definition fraction_socket :: Readable where
  "fraction_socket = \<lparr>incoming = [3], destroyed = False\<rparr>"

definition malformed_socket :: Readable where
  "malformed_socket = \<lparr>incoming = [255], destroyed = False\<rparr>"

text \<open>A store that fulfils every call, and one that rejects the call after \<open>n\<close> others.\<close>

definition willing_store :: "string DataStore" where
  "willing_store tr c = None"

definition failing_store :: "nat \<Rightarrow> string DataStore" where
  "failing_store n tr c = (if length tr = n then Some ''connection lost'' else None)"

text \<open>
  A course of the server: the two sockets with messages connect, the queue starts the task
  of the first and resumes it to its end, then the same for the second.
\<close>

definition example_schedule :: "action list" where
  "example_schedule =
     [Connect scenario_socket, Connect odd_socket,
      Start, Resume 0, Resume 0, Resume 0, Resume 0, Resume 0, Resume 0, Resume 0,
      Start, Resume 0, Resume 0, Resume 0, Resume 0, Resume 0, Resume 0]"

section \<open>A message is run step by step\<close>

lemma run_append:
  "run db (ss @ ts) tr =
     (case run db ss tr of (None, tr') \<Rightarrow> run db ts tr' | (Some e, tr') \<Rightarrow> (Some e, tr'))"
  by (induction db ss tr rule: run.induct) (auto split: option.splits)

lemma for_each_run:
  assumes "\<And>i tr. i \<in> set is \<Longrightarrow> f i tr = run db (g i) tr"
  shows "for_each f is tr = run db (concat (map g is)) tr"
  using assms
  by (induction "is" arbitrary: tr) (auto simp: run_append split: prod.splits option.splits)

lemma tx_body_run: "tx_body ext db pm i tr = run db (tx_steps ext pm i) tr"
  by (auto simp: tx_body_def tx_steps_def and_then_def await_def done_io_def throw_def Let_def
      split: option.splits TransactionPayload.splits)

lemma event_body_run: "event_body ext db pm i tr = run db [event_step ext pm i] tr"
  by (auto simp: event_body_def event_step_def await_def throw_def Let_def
      split: option.splits sum.splits)

lemma apply_message_run:
  assumes p: "parseMessageTransactions ext msg = Inr pm"
  shows "apply_message ext db msg tr = run db (message_steps ext pm) tr"
proof -
  have tx: "for_each (tx_body ext db pm) is t = run db (concat (map (tx_steps ext pm) is)) t" for "is" t
    by (rule for_each_run) (rule tx_body_run)
  have ev: "for_each (event_body ext db pm) is t = run db (map (event_step ext pm) is) t" for "is" t
    using for_each_run [of "is" "event_body ext db pm" db "\<lambda>i. [event_step ext pm i]" t]
    by (simp add: event_body_run)
  show ?thesis
    by (simp add: apply_message_def p message_steps_def and_then_def await_def tx ev run_append
        split: option.splits prod.splits)
qed

lemma handle_run:
  assumes "readMessageFromStream ext (incoming sock) = Inr (Some msg)"
    and "parseMessageTransactions ext msg = Inr pm"
  shows "handleClientMessage ext sock db tr =
     \<lparr>rejection = fst (run db (message_steps ext pm) tr),
      calls = snd (run db (message_steps ext pm) tr),
      socket = sock\<rparr>"
  using assms by (simp add: handleClientMessage_def apply_message_run split: prod.splits)

text \<open>What a run issues is a prefix of its steps.\<close>

lemma run_issues:
  "\<exists>cs. snd (run db ss tr) = tr @ cs \<and> prefix (map Inr cs) ss \<and>
        (fst (run db ss tr) = None \<longrightarrow> map Inr cs = ss)"
proof (induction db ss tr rule: run.induct)
  case (1 db tr)
  show ?case by simp
next
  case (2 db e ss tr)
  show ?case by simp
next
  case (3 db c ss tr)
  show ?case
  proof (cases "db tr c")
    case None
    from 3 [OF None] obtain cs where cs: "snd (run db ss (tr @ [c])) = (tr @ [c]) @ cs"
        "prefix (map Inr cs) ss" "fst (run db ss (tr @ [c])) = None \<longrightarrow> map Inr cs = ss"
      by auto
    show ?thesis
      by (rule exI [of _ "c # cs"]) (use None cs in simp)
  next
    case (Some m)
    show ?thesis
      by (rule exI [of _ "[c]"]) (use Some in simp)
  qed
qed

lemma run_accepted:
  "accepts db tr cs \<Longrightarrow> run db (map Inr cs @ ss) tr = run db ss (tr @ cs)"
  by (induction cs arbitrary: tr) auto

lemma writes_of_simps [simp]:
  "writes_of [] = []"
  "writes_of (Inr c # ss) = c # writes_of ss"
  "writes_of (Inl e # ss) = writes_of ss"
  "writes_of (ss @ ts) = writes_of ss @ writes_of ts"
  by (simp_all add: writes_of_def map_filter_def)

lemma writes_of_map_Inr [simp]: "writes_of (map Inr cs) = cs"
  by (induction cs) auto

lemma writes_of_concat: "writes_of (concat xss) = concat (map writes_of xss)"
  by (induction xss) auto

lemma prefix_writes_of: "prefix ss ts \<Longrightarrow> prefix (writes_of ss) (writes_of ts)"
  by (auto simp: prefix_def)

lemma writes_of_tx_steps:
  "i < length (parsed_transactions pm) \<Longrightarrow>
   writes_of (tx_steps ext pm i) = spec_tx_writes ext pm (parsed_transactions pm ! i)"
  by (simp add: tx_steps_def spec_tx_writes_def Let_def split: TransactionPayload.splits)

lemma map_filter_map: "List.map_filter f (map g xs) = List.map_filter (\<lambda>x. f (g x)) xs"
  by (induction xs) (auto split: option.splits)

lemma take_enumerate_nth:
  "k \<le> length xs \<Longrightarrow> take k (enumerate 0 xs) = map (\<lambda>i. (i, xs ! i)) [0..<k]"
  by (intro nth_equalityI) (auto simp: nth_enumerate_eq)

lemma event_step_write:
  "(case event_step ext pm i of Inl e \<Rightarrow> None | Inr c \<Rightarrow> Some c) =
   spec_event_write ext pm (i, events pm ! i)"
  by (simp add: event_step_def spec_event_write_def dbEvent_base_def Let_def)

lemma writes_of_event_steps:
  assumes "k \<le> length (events pm)"
  shows "writes_of (map (event_step ext pm) [0..<k]) =
     List.map_filter (spec_event_write ext pm) (take k (enumerate 0 (events pm)))"
  using assms
  by (simp add: writes_of_def map_filter_map take_enumerate_nth event_step_write)

lemma writes_of_all_tx_steps:
  assumes "n = length (parsed_transactions pm)"
  shows "writes_of (concat (map (tx_steps ext pm) [0..<n])) =
     concat (map (spec_tx_writes ext pm) (parsed_transactions pm))"
proof -
  have "map (\<lambda>i. writes_of (tx_steps ext pm i)) [0..<n] =
      map (\<lambda>i. spec_tx_writes ext pm (parsed_transactions pm ! i)) [0..<n]"
    using assms by (simp add: writes_of_tx_steps)
  also have "\<dots> = map (spec_tx_writes ext pm) (map (\<lambda>i. parsed_transactions pm ! i) [0..<n])"
    by simp
  also have "\<dots> = map (spec_tx_writes ext pm) (parsed_transactions pm)"
    unfolding assms by (simp only: map_nth)
  finally show ?thesis
    by (simp add: writes_of_concat comp_def)
qed

lemma writes_of_message_steps_upto:
  assumes "length (parsed_transactions pm) = length (transactions pm)"
    and "k \<le> length (events pm)"
  shows "writes_of (Inr (updateBlock (dbBlock_entry pm)) #
           concat (map (tx_steps ext pm) [0..<length (transactions pm)]) @
           map (event_step ext pm) [0..<k]) = spec_writes_upto ext pm k"
  using assms
  by (simp add: spec_writes_upto_def writes_of_all_tx_steps writes_of_event_steps)

lemma writes_of_message_steps:
  assumes "length (parsed_transactions pm) = length (transactions pm)"
  shows "writes_of (message_steps ext pm) = spec_writes ext pm"
  using writes_of_message_steps_upto [OF assms, of "length (events pm)" ext]
  by (simp add: message_steps_def spec_writes_def)

lemma new_calls:
  assumes "readMessageFromStream ext (incoming sock) = Inr (Some msg)"
    and "parseMessageTransactions ext msg = Inr pm"
  shows "\<exists>cs. calls (handleClientMessage ext sock db tr) = tr @ cs \<and>
    prefix (map Inr cs) (message_steps ext pm) \<and>
    (rejection (handleClientMessage ext sock db tr) = None \<longrightarrow> map Inr cs = message_steps ext pm)"
  using run_issues [of db "message_steps ext pm" tr]
  by (simp add: handle_run [OF assms])

section \<open>The order of the writes\<close>

lemma calls_follow_spec:
  assumes "readMessageFromStream ext (incoming clientSocket) = Inr (Some msg)"
    and "parseMessageTransactions ext msg = Inr parsedMsg"
    and "length (parsed_transactions parsedMsg) = length (transactions parsedMsg)"
  shows "\<exists>cs. calls (handleClientMessage ext clientSocket db tr) = tr @ cs \<and>
      prefix cs (spec_writes ext parsedMsg) \<and>
      (rejection (handleClientMessage ext clientSocket db tr) = None \<longrightarrow>
         cs = spec_writes ext parsedMsg)"
proof -
  obtain cs where cs: "calls (handleClientMessage ext clientSocket db tr) = tr @ cs"
    "prefix (map Inr cs) (message_steps ext parsedMsg)"
    "rejection (handleClientMessage ext clientSocket db tr) = None \<longrightarrow>
       map Inr cs = message_steps ext parsedMsg"
    using new_calls [OF assms(1,2), of db tr] by auto
  have "prefix (writes_of (map Inr cs)) (writes_of (message_steps ext parsedMsg))"
    using cs(2) by (rule prefix_writes_of)
  then have 1: "prefix cs (spec_writes ext parsedMsg)"
    by (simp add: writes_of_message_steps [OF assms(3)])
  have 2: "cs = spec_writes ext parsedMsg"
    if "rejection (handleClientMessage ext clientSocket db tr) = None"
  proof -
    have "writes_of (map Inr cs) = writes_of (message_steps ext parsedMsg)"
      using cs(3) that by simp
    then show ?thesis
      by (simp add: writes_of_message_steps [OF assms(3)])
  qed
  show ?thesis
    using cs(1) 1 2 by auto
qed

text \<open>
  Claim C3. When a message has been read and parsed, and the parser has decoded each of
  its transactions, the calls that \<^verbatim>\<open>handleClientMessage\<close> issues on the store are, in this
  order: the write of the block record; for each transaction in the order of the message,
  the write of its transaction record, followed by the write of the contract record when
  its payload deploys a contract; for each event in the order of the message, the write of
  the record it is classified as. A handling that is rejected has issued a prefix of these
  calls, a handling that is fulfilled all of them.
\<close>

theorem writes_in_order:
  assumes "readMessageFromStream ext (incoming clientSocket) = Inr (Some msg)"
    and "parseMessageTransactions ext msg = Inr parsedMsg"
    and "length (parsed_transactions parsedMsg) = length (transactions parsedMsg)"
  shows "\<exists>cs. calls (handleClientMessage ext clientSocket db tr) = tr @ cs \<and>
      prefix cs (spec_writes ext parsedMsg) \<and>
      (rejection (handleClientMessage ext clientSocket db tr) = None \<longrightarrow>
         cs = spec_writes ext parsedMsg)"
  using assms by (rule calls_follow_spec)

theorem writes_in_order_witness:
  "readMessageFromStream example_ext (incoming scenario_socket) = Inr (Some scenario_message) \<and>
   parseMessageTransactions example_ext scenario_message = Inr scenario_parsed \<and>
   length (parsed_transactions scenario_parsed) = length (transactions scenario_parsed) \<and>
   rejection (handleClientMessage example_ext scenario_socket willing_store []) = None \<and>
   calls (handleClientMessage example_ext scenario_socket willing_store []) =
     spec_writes example_ext scenario_parsed"
proof -
  have r: "readMessageFromStream example_ext (incoming scenario_socket) = Inr (Some scenario_message)"
    by code_simp
  have p: "parseMessageTransactions example_ext scenario_message = Inr scenario_parsed"
    by code_simp
  have l: "length (parsed_transactions scenario_parsed) = length (transactions scenario_parsed)"
    by code_simp
  have f: "rejection (handleClientMessage example_ext scenario_socket willing_store []) = None"
    by code_simp
  show ?thesis
    using writes_in_order [OF r p l, of willing_store "[]"] r p l f by auto
qed

section \<open>The classification of events\<close>

lemma event_body_writes:
  "event_step ext pm i = Inr entry \<Longrightarrow> snd (event_body ext db pm i tr) = tr @ [entry]"
  by (simp add: event_body_run split: option.splits)

text \<open>
  Claim C4 says that every event of one of the eight recognised types is classified as
  exactly one record. The code does so only when the amount or the hex value of the event
  can be converted: an STX transfer, which is a recognised type, with the amount \<^verbatim>\<open>1.5\<close>
  makes \<^verbatim>\<open>BigInt\<close> throw, the switch yields no record for it, the body of the loop issues
  no call, and the handling of its message is rejected without any event record written.
\<close>

theorem recognised_type_without_record_counterexample:
  "body fraction_event = StxTransferEvent fraction_transfer \<and>
   BigInt example_ext (stx_transfer_event.amount fraction_transfer) =
     Inl ''Cannot convert to a BigInt'' \<and>
   event_switch example_ext (dbEvent_base fraction_parsed 0) (body (events fraction_parsed ! 0)) =
     (Inl (SyntaxError ''Cannot convert to a BigInt'') :: error + string store_call) \<and>
   event_body example_ext willing_store fraction_parsed 0 [] =
     (Some (SyntaxError ''Cannot convert to a BigInt''), []) \<and>
   readMessageFromStream example_ext (incoming fraction_socket) = Inr (Some fraction_message) \<and>
   parseMessageTransactions example_ext fraction_message = Inr fraction_parsed \<and>
   events fraction_parsed ! 0 = fraction_event \<and>
   rejection (handleClientMessage example_ext fraction_socket willing_store []) =
     Some (SyntaxError ''Cannot convert to a BigInt'') \<and>
   event_calls (calls (handleClientMessage example_ext fraction_socket willing_store [])) = [] \<and>
   length (calls (handleClientMessage example_ext fraction_socket willing_store [])) = 3"
  by code_simp

text \<open>
  Claim C4, amended. For each of the eight recognised types of event, when the amount of
  the event is a string that \<^verbatim>\<open>BigInt\<close> converts (STX and fungible token events) or its raw
  value a string that \<^verbatim>\<open>hexToBuffer\<close> decodes (contract logs and non-fungible token
  events), the switch builds one record, of the variant and with the fields of the table of
  section 4.4: a contract log with the contract identifier, the topic and the decoded
  value; an STX, fungible or non-fungible token record with its kind of movement, its
  sender and recipient, and its amount, its asset identifier or its decoded value. A mint
  has no sender and a burn has no recipient: the property is absent. The base of the record
  (index, transaction, height, canonical flag) is carried over unchanged, and the body of
  the loop hands exactly that record to the store.
\<close>

theorem classification_table:
  "(hexToBuffer ext (contract_event.raw_value ce) = Inr v1 \<longrightarrow>
      event_switch ext \<lparr>event_index = k, tx_id = t, block_height = h, canonical = c\<rparr>
        (ContractEvent ce) =
      Inr (updateSmartContractEvent
        \<lparr>event_index = k, tx_id = t, block_height = h, canonical = c,
         DbSmartContractEvent.event_type = SmartContractLog,
         contract_identifier = contract_event.contract_identifier ce,
         topic = contract_event.topic ce,
         value = v1\<rparr>)) \<and>
   (BigInt ext (stx_transfer_event.amount st) = Inr n1 \<longrightarrow>
      event_switch ext \<lparr>event_index = k, tx_id = t, block_height = h, canonical = c\<rparr>
        (StxTransferEvent st) =
      Inr (updateStxEvent
        \<lparr>event_index = k, tx_id = t, block_height = h, canonical = c,
         DbStxEvent.event_type = StxAsset,
         asset_event_type_id = Transfer,
         sender = Some (stx_transfer_event.sender st),
         recipient = Some (stx_transfer_event.recipient st),
         amount = n1\<rparr>)) \<and>
   (BigInt ext (stx_mint_event.amount sm) = Inr n2 \<longrightarrow>
      event_switch ext \<lparr>event_index = k, tx_id = t, block_height = h, canonical = c\<rparr>
        (StxMintEvent sm) =
      Inr (updateStxEvent
        \<lparr>event_index = k, tx_id = t, block_height = h, canonical = c,
         DbStxEvent.event_type = StxAsset,
         asset_event_type_id = Mint,
         sender = None,
         recipient = Some (stx_mint_event.recipient sm),
         amount = n2\<rparr>)) \<and>
   (BigInt ext (stx_burn_event.amount sb) = Inr n3 \<longrightarrow>
      event_switch ext \<lparr>event_index = k, tx_id = t, block_height = h, canonical = c\<rparr>
        (StxBurnEvent sb) =
      Inr (updateStxEvent
        \<lparr>event_index = k, tx_id = t, block_height = h, canonical = c,
         DbStxEvent.event_type = StxAsset,
         asset_event_type_id = Burn,
         sender = Some (stx_burn_event.sender sb),
         recipient = None,
         amount = n3\<rparr>)) \<and>
   (BigInt ext (ft_transfer_event.amount ft) = Inr n4 \<longrightarrow>
      event_switch ext \<lparr>event_index = k, tx_id = t, block_height = h, canonical = c\<rparr>
        (FtTransferEvent ft) =
      Inr (updateFtEvent
        \<lparr>event_index = k, tx_id = t, block_height = h, canonical = c,
         DbFtEvent.event_type = FungibleTokenAsset,
         asset_event_type_id = Transfer,
         sender = Some (ft_transfer_event.sender ft),
         recipient = Some (ft_transfer_event.recipient ft),
         asset_identifier = ft_transfer_event.asset_identifier ft,
         amount = n4\<rparr>)) \<and>
   (BigInt ext (ft_mint_event.amount fm) = Inr n5 \<longrightarrow>
      event_switch ext \<lparr>event_index = k, tx_id = t, block_height = h, canonical = c\<rparr>
        (FtMintEvent fm) =
      Inr (updateFtEvent
        \<lparr>event_index = k, tx_id = t, block_height = h, canonical = c,
         DbFtEvent.event_type = FungibleTokenAsset,
         asset_event_type_id = Mint,
         sender = None,
         recipient = Some (ft_mint_event.recipient fm),
         asset_identifier = ft_mint_event.asset_identifier fm,
         amount = n5\<rparr>)) \<and>
   (hexToBuffer ext (nft_transfer_event.raw_value nt) = Inr v2 \<longrightarrow>
      event_switch ext \<lparr>event_index = k, tx_id = t, block_height = h, canonical = c\<rparr>
        (NftTransferEvent nt) =
      Inr (updateNftEvent
        \<lparr>event_index = k, tx_id = t, block_height = h, canonical = c,
         DbNftEvent.event_type = NonFungibleTokenAsset,
         asset_event_type_id = Transfer,
         sender = Some (nft_transfer_event.sender nt),
         recipient = Some (nft_transfer_event.recipient nt),
         asset_identifier = nft_transfer_event.asset_identifier nt,
         value = v2\<rparr>)) \<and>
   (hexToBuffer ext (nft_mint_event.raw_value nm) = Inr v3 \<longrightarrow>
      event_switch ext \<lparr>event_index = k, tx_id = t, block_height = h, canonical = c\<rparr>
        (NftMintEvent nm) =
      Inr (updateNftEvent
        \<lparr>event_index = k, tx_id = t, block_height = h, canonical = c,
         DbNftEvent.event_type = NonFungibleTokenAsset,
         asset_event_type_id = Mint,
         sender = None,
         recipient = Some (nft_mint_event.recipient nm),
         asset_identifier = nft_mint_event.asset_identifier nm,
         value = v3\<rparr>)) \<and>
   (event_switch ext (dbEvent_base parsedMsg i) (body (events parsedMsg ! i)) = Inr entry \<longrightarrow>
      snd (event_body ext db parsedMsg i tr) = tr @ [entry])"
  by (simp add: with_value_def DbEventBase.extend_def event_body_writes event_step_def)

theorem classification_table_witness:
  "hexToBuffer example_ext (contract_event.raw_value a_log) = Inr [1, 0] \<and>
   event_switch example_ext \<lparr>event_index = 3, tx_id = ''0x01'', block_height = 100, canonical = True\<rparr> (ContractEvent a_log) =
     Inr (updateSmartContractEvent
       \<lparr>event_index = 3, tx_id = ''0x01'', block_height = 100, canonical = True,
        DbSmartContractEvent.event_type = SmartContractLog,
        contract_identifier = ''SPabc.foo'', topic = ''print'', value = [1, 0]\<rparr>) \<and>
   BigInt example_ext (stx_transfer_event.amount a_transfer) = Inr 25 \<and>
   event_switch example_ext \<lparr>event_index = 3, tx_id = ''0x01'', block_height = 100, canonical = True\<rparr> (StxTransferEvent a_transfer) =
     Inr (updateStxEvent
       \<lparr>event_index = 3, tx_id = ''0x01'', block_height = 100, canonical = True,
        DbStxEvent.event_type = StxAsset, asset_event_type_id = Transfer,
        sender = Some ''SPabc'', recipient = Some ''SPdef'', amount = 25\<rparr>) \<and>
   BigInt example_ext (stx_mint_event.amount a_mint) = Inr 500 \<and>
   event_switch example_ext \<lparr>event_index = 3, tx_id = ''0x01'', block_height = 100, canonical = True\<rparr> (StxMintEvent a_mint) =
     Inr (updateStxEvent
       \<lparr>event_index = 3, tx_id = ''0x01'', block_height = 100, canonical = True,
        DbStxEvent.event_type = StxAsset, asset_event_type_id = Mint,
        sender = None, recipient = Some ''SPabc'', amount = 500\<rparr>) \<and>
   BigInt example_ext (stx_burn_event.amount a_burn) = Inr 7 \<and>
   event_switch example_ext \<lparr>event_index = 3, tx_id = ''0x01'', block_height = 100, canonical = True\<rparr> (StxBurnEvent a_burn) =
     Inr (updateStxEvent
       \<lparr>event_index = 3, tx_id = ''0x01'', block_height = 100, canonical = True,
        DbStxEvent.event_type = StxAsset, asset_event_type_id = Burn,
        sender = Some ''SPabc'', recipient = None, amount = 7\<rparr>) \<and>
   BigInt example_ext (ft_transfer_event.amount a_ft_transfer) = Inr 12 \<and>
   event_switch example_ext \<lparr>event_index = 3, tx_id = ''0x01'', block_height = 100, canonical = True\<rparr> (FtTransferEvent a_ft_transfer) =
     Inr (updateFtEvent
       \<lparr>event_index = 3, tx_id = ''0x01'', block_height = 100, canonical = True,
        DbFtEvent.event_type = FungibleTokenAsset, asset_event_type_id = Transfer,
        sender = Some ''SPabc'', recipient = Some ''SPdef'',
        asset_identifier = ''SPabc.foo::coin'', amount = 12\<rparr>) \<and>
   BigInt example_ext (ft_mint_event.amount a_ft_mint) = Inr 1000 \<and>
   event_switch example_ext \<lparr>event_index = 3, tx_id = ''0x01'', block_height = 100, canonical = True\<rparr> (FtMintEvent a_ft_mint) =
     Inr (updateFtEvent
       \<lparr>event_index = 3, tx_id = ''0x01'', block_height = 100, canonical = True,
        DbFtEvent.event_type = FungibleTokenAsset, asset_event_type_id = Mint,
        sender = None, recipient = Some ''SPdef'',
        asset_identifier = ''SPabc.foo::coin'', amount = 1000\<rparr>) \<and>
   hexToBuffer example_ext (nft_transfer_event.raw_value a_nft_transfer) = Inr [42] \<and>
   event_switch example_ext \<lparr>event_index = 3, tx_id = ''0x01'', block_height = 100, canonical = True\<rparr> (NftTransferEvent a_nft_transfer) =
     Inr (updateNftEvent
       \<lparr>event_index = 3, tx_id = ''0x01'', block_height = 100, canonical = True,
        DbNftEvent.event_type = NonFungibleTokenAsset, asset_event_type_id = Transfer,
        sender = Some ''SPabc'', recipient = Some ''SPdef'',
        asset_identifier = ''SPabc.foo::card'', value = [42]\<rparr>) \<and>
   hexToBuffer example_ext (nft_mint_event.raw_value a_nft_mint) = Inr [] \<and>
   event_switch example_ext \<lparr>event_index = 3, tx_id = ''0x01'', block_height = 100, canonical = True\<rparr> (NftMintEvent a_nft_mint) =
     Inr (updateNftEvent
       \<lparr>event_index = 3, tx_id = ''0x01'', block_height = 100, canonical = True,
        DbNftEvent.event_type = NonFungibleTokenAsset, asset_event_type_id = Mint,
        sender = None, recipient = Some ''SPabc'',
        asset_identifier = ''SPabc.foo::card'', value = []\<rparr>) \<and>
   event_switch example_ext (dbEvent_base scenario_parsed 0) (body (events scenario_parsed ! 0)) =
     Inr (updateStxEvent
       \<lparr>event_index = 0, tx_id = ''0x01'', block_height = 100, canonical = True,
        DbStxEvent.event_type = StxAsset, asset_event_type_id = Mint,
        sender = None, recipient = Some ''SPabc'', amount = 500\<rparr>) \<and>
   snd (event_body example_ext willing_store scenario_parsed 0 []) =
     [updateStxEvent
       \<lparr>event_index = 0, tx_id = ''0x01'', block_height = 100, canonical = True,
        DbStxEvent.event_type = StxAsset, asset_event_type_id = Mint,
        sender = None, recipient = Some ''SPabc'', amount = 500\<rparr>]"
proof -
  have p1: "hexToBuffer example_ext (contract_event.raw_value a_log) = Inr [1, 0]"
    by code_simp
  have p2: "BigInt example_ext (stx_transfer_event.amount a_transfer) = Inr 25"
    by code_simp
  have p3: "BigInt example_ext (stx_mint_event.amount a_mint) = Inr 500"
    by code_simp
  have p4: "BigInt example_ext (stx_burn_event.amount a_burn) = Inr 7"
    by code_simp
  have p5: "BigInt example_ext (ft_transfer_event.amount a_ft_transfer) = Inr 12"
    by code_simp
  have p6: "BigInt example_ext (ft_mint_event.amount a_ft_mint) = Inr 1000"
    by code_simp
  have p7: "hexToBuffer example_ext (nft_transfer_event.raw_value a_nft_transfer) = Inr [42]"
    by code_simp
  have p8: "hexToBuffer example_ext (nft_mint_event.raw_value a_nft_mint) = Inr []"
    by code_simp
  have p9: "event_switch example_ext (dbEvent_base scenario_parsed 0) (body (events scenario_parsed ! 0)) =
     Inr (updateStxEvent
       \<lparr>event_index = 0, tx_id = ''0x01'', block_height = 100, canonical = True,
        DbStxEvent.event_type = StxAsset, asset_event_type_id = Mint,
        sender = None, recipient = Some ''SPabc'', amount = 500\<rparr>)"
    by code_simp
  show ?thesis
    using p1 p2 p3 p4 p5 p6 p7 p8 p9
      classification_table [where ext = example_ext and k = 3 and t = "''0x01''" and h = 100
        and c = True and ce = a_log and ?v1.0 = "[1, 0]" and st = a_transfer and ?n1.0 = 25
        and sm = a_mint and ?n2.0 = 500 and sb = a_burn and ?n3.0 = 7
        and ft = a_ft_transfer and ?n4.0 = 12 and fm = a_ft_mint and ?n5.0 = 1000
        and nt = a_nft_transfer and ?v2.0 = "[42]" and nm = a_nft_mint and ?v3.0 = "[]"
        and parsedMsg = scenario_parsed and i = 0 and db = willing_store and tr = "[]"]
    by (simp add: a_log_def a_transfer_def a_mint_def a_burn_def a_ft_transfer_def
        a_ft_mint_def a_nft_transfer_def a_nft_mint_def)
qed

section \<open>The index of an event\<close>

lemma event_switch_base:
  "event_switch ext base b = Inr c \<Longrightarrow> event_base_of c = Some base"
  by (cases b)
     (auto simp: with_value_def event_base_of_def DbEventBase.extend_def DbEventBase.truncate_def
       split: sum.splits)

lemma event_switch_canonical:
  "event_switch ext base b = Inr c \<Longrightarrow> canonical_of c = Some (DbEventBase.canonical base)"
  by (cases b)
     (auto simp: with_value_def canonical_of_def DbEventBase.extend_def split: sum.splits)

lemma event_switch_no_contract:
  "event_switch ext base b = Inr c \<Longrightarrow> contract_of c = None"
  by (cases b) (auto simp: with_value_def contract_of_def split: sum.splits)

lemma tx_steps_cases:
  assumes "Inr c \<in> set (tx_steps ext pm i)"
  shows "(\<exists>r. c = updateTx r) \<or>
    (\<exists>tx nm code. c = updateSmartContract (smart_contract_entry ext pm tx nm code))"
  using assms
  by (auto simp: tx_steps_def Let_def split: if_splits TransactionPayload.splits)

lemma head_steps_not_event:
  assumes "Inr c \<in> set (Inr (updateBlock (dbBlock_entry pm)) #
      concat (map (tx_steps ext pm) is))"
  shows "event_base_of c = None"
proof -
  from assms consider "c = updateBlock (dbBlock_entry pm)"
    | i where "Inr c \<in> set (tx_steps ext pm i)"
    by auto
  then show ?thesis
  proof cases
    case 1
    then show ?thesis by (simp add: event_base_of_def)
  next
    case 2
    then show ?thesis
      using tx_steps_cases [OF 2] by (auto simp: event_base_of_def)
  qed
qed

lemma event_steps_event:
  assumes "Inr c \<in> set (map (event_step ext pm) is)"
  shows "event_base_of c \<noteq> None"
  using assms event_switch_base [of ext _ _ c]
  by (auto simp: event_step_def)

text \<open>Filtering the calls of a prefix of steps that fall into two parts.\<close>

lemma filter_prefix_steps:
  assumes pre: "prefix (map Inr cs) (hs @ es)"
    and hs: "\<And>c. Inr c \<in> set hs \<Longrightarrow> \<not> P c"
    and es: "\<And>c. Inr c \<in> set es \<Longrightarrow> P c"
  shows "prefix (map Inr (filter P cs)) es"
    and "map Inr cs = hs @ es \<Longrightarrow> map Inr (filter P cs) = es"
proof -
  have none: "filter P xs = []" if "set (map Inr xs) \<subseteq> set hs" for xs
    using that hs by (auto simp: filter_empty_conv)
  have all: "filter P xs = xs" if "set (map Inr xs) \<subseteq> set es" for xs
    using that es by (auto simp: filter_id_conv)
  from pre consider "prefix (map Inr cs) hs" | us where "map Inr cs = hs @ us" "prefix us es"
    by (auto simp: prefix_append)
  then show "prefix (map Inr (filter P cs)) es"
  proof cases
    case 1
    then have "filter P cs = []"
      by (intro none) (rule set_mono_prefix)
    then show ?thesis by simp
  next
    case 2
    then obtain cs1 cs2 where cs: "cs = cs1 @ cs2" "map Inr cs1 = hs" "map Inr cs2 = us"
      by (auto simp: map_eq_append_conv)
    have "filter P cs1 = []"
      by (rule none) (simp add: cs(2))
    moreover have "filter P cs2 = cs2"
      by (rule all) (use cs(3) 2(2) in \<open>auto dest: set_mono_prefix\<close>)
    ultimately show ?thesis
      using cs 2 by simp
  qed
  show "map Inr (filter P cs) = es" if "map Inr cs = hs @ es"
  proof -
    from that obtain cs1 cs2 where cs: "cs = cs1 @ cs2" "map Inr cs1 = hs" "map Inr cs2 = es"
      by (auto simp: map_eq_append_conv)
    have "filter P cs1 = []"
      by (rule none) (simp add: cs(2))
    moreover have "filter P cs2 = cs2"
      by (rule all) (simp add: cs(3))
    ultimately show ?thesis
      using cs by simp
  qed
qed

lemma event_calls_steps:
  assumes "prefix (map Inr cs) (message_steps ext pm)"
  shows "prefix (map Inr (event_calls cs)) (map (event_step ext pm) [0..<length (events pm)])"
    and "map Inr cs = message_steps ext pm \<Longrightarrow>
      map Inr (event_calls cs) = map (event_step ext pm) [0..<length (events pm)]"
proof -
  let ?hs = "Inr (updateBlock (dbBlock_entry pm)) #
      concat (map (tx_steps ext pm) [0..<length (transactions pm)])"
  let ?es = "map (event_step ext pm) [0..<length (events pm)]"
  have split: "message_steps ext pm = ?hs @ ?es"
    by (simp add: message_steps_def)
  have hs: "\<not> event_base_of c \<noteq> None" if "Inr c \<in> set ?hs" for c
    using head_steps_not_event [OF that] by simp
  have es: "event_base_of c \<noteq> None" if "Inr c \<in> set ?es" for c
    using that by (rule event_steps_event)
  show "prefix (map Inr (event_calls cs)) ?es"
    unfolding event_calls_def
    by (rule filter_prefix_steps(1) [where hs = ?hs]) (use assms split hs es in auto)
  show "map Inr (event_calls cs) = ?es" if "map Inr cs = message_steps ext pm"
    unfolding event_calls_def
    by (rule filter_prefix_steps(2) [where hs = ?hs]) (use assms that split hs es in auto)
qed

lemma event_bases_calls: "event_bases cs = map (\<lambda>c. the (event_base_of c)) (event_calls cs)"
  by (simp add: event_bases_def event_calls_def map_filter_def)

text \<open>
  Claim C6. Of the calls that \<^verbatim>\<open>handleClientMessage\<close> issues for a message, the \<open>k\<close>-th
  one that writes an event record writes the record of the \<open>k\<close>-th event of the message
  (counting from 0), and that record has \<open>event_index = k\<close> and the transaction of that
  event. So the indices written are \<open>0, 1, 2, \<dots>\<close> in this order, without gap or repetition;
  there is one for each event when the handling is fulfilled.
\<close>

theorem event_index_is_position:
  assumes "readMessageFromStream ext (incoming clientSocket) = Inr (Some msg)"
    and "parseMessageTransactions ext msg = Inr parsedMsg"
  shows "\<exists>cs. calls (handleClientMessage ext clientSocket db tr) = tr @ cs \<and>
      length (event_calls cs) \<le> length (events parsedMsg) \<and>
      (rejection (handleClientMessage ext clientSocket db tr) = None \<longrightarrow>
         length (event_calls cs) = length (events parsedMsg)) \<and>
      (\<forall>k<length (event_calls cs).
         event_switch ext (dbEvent_base parsedMsg k) (body (events parsedMsg ! k)) =
           Inr (event_calls cs ! k) \<and>
         map_option event_index (event_base_of (event_calls cs ! k)) = Some k \<and>
         map_option tx_id (event_base_of (event_calls cs ! k)) =
           Some (CoreNodeEvent.txid (events parsedMsg ! k))) \<and>
      map event_index (event_bases cs) = [0..<length (event_calls cs)]"
proof -
  let ?r = "handleClientMessage ext clientSocket db tr"
  let ?es = "map (event_step ext parsedMsg) [0..<length (events parsedMsg)]"
  obtain cs where cs: "calls ?r = tr @ cs"
    "prefix (map Inr cs) (message_steps ext parsedMsg)"
    "rejection ?r = None \<longrightarrow> map Inr cs = message_steps ext parsedMsg"
    using new_calls [OF assms, of db tr] by auto
  let ?ecs = "event_calls cs"
  have pre: "prefix (map Inr ?ecs) ?es"
    using cs(2) by (rule event_calls_steps(1))
  then have len: "length ?ecs \<le> length (events parsedMsg)"
    using prefix_length_le by fastforce
  have full: "length ?ecs = length (events parsedMsg)" if "rejection ?r = None"
  proof -
    have "map Inr ?ecs = ?es"
      using cs(3) that event_calls_steps(2) [of cs ext parsedMsg] cs(2) by simp
    then have "length (map Inr ?ecs :: (error + 'b store_call) list) = length ?es"
      by simp
    then show ?thesis by simp
  qed
  have nth: "event_step ext parsedMsg k = Inr (?ecs ! k)" if "k < length ?ecs" for k
  proof -
    from pre obtain zs where zs: "?es = map Inr ?ecs @ zs"
      by (auto simp: prefix_def)
    have "?es ! k = Inr (?ecs ! k)"
      using that by (simp add: zs nth_append)
    then show ?thesis
      using that len by simp
  qed
  have base: "event_base_of (?ecs ! k) = Some (dbEvent_base parsedMsg k)" if "k < length ?ecs" for k
    using nth [OF that] by (auto simp: event_step_def dest: event_switch_base)
  have idx: "map event_index (event_bases cs) = [0..<length ?ecs]"
    by (rule nth_equalityI) (simp_all add: event_bases_calls base dbEvent_base_def Let_def)
  show ?thesis
    using cs(1) len full nth base idx
    by (intro exI [of _ cs]) (auto simp: event_step_def dbEvent_base_def Let_def)
qed


theorem event_index_is_position_witness:
  "readMessageFromStream example_ext (incoming scenario_socket) = Inr (Some scenario_message) \<and>
   parseMessageTransactions example_ext scenario_message = Inr scenario_parsed \<and>
   rejection (handleClientMessage example_ext scenario_socket willing_store []) = None \<and>
   length (event_calls (calls (handleClientMessage example_ext scenario_socket willing_store []))) = 2 \<and>
   map event_index
     (event_bases (calls (handleClientMessage example_ext scenario_socket willing_store []))) =
     [0, 1]"
proof -
  have r: "readMessageFromStream example_ext (incoming scenario_socket) = Inr (Some scenario_message)"
    by code_simp
  have p: "parseMessageTransactions example_ext scenario_message = Inr scenario_parsed"
    by code_simp
  have f: "rejection (handleClientMessage example_ext scenario_socket willing_store []) = None"
    by code_simp
  have l: "length (events scenario_parsed) = 2"
    by code_simp
  have u: "[0..<2] = [0, Suc 0]"
    by (simp add: upt_rec)
  show ?thesis
    using event_index_is_position [OF r p, of willing_store "[]"] r p f l u by auto
qed

section \<open>Contract records\<close>

lemma contract_records_simps [simp]:
  "contract_records [] = []"
  "contract_records (updateBlock b # cs) = contract_records cs"
  "contract_records (updateTx t # cs) = contract_records cs"
  "contract_records (updateSmartContract r # cs) = r # contract_records cs"
  "contract_records (cs @ ds) = contract_records cs @ contract_records ds"
  by (simp_all add: contract_records_def contract_of_def map_filter_def)

lemma contract_records_none:
  "(\<And>c. c \<in> set cs \<Longrightarrow> contract_of c = None) \<Longrightarrow> contract_records cs = []"
  by (induction cs) (auto simp: contract_records_def map_filter_def)

lemma contract_records_events:
  "contract_records (List.map_filter (spec_event_write ext pm) xs) = []"
proof (rule contract_records_none)
  fix c
  assume "c \<in> set (List.map_filter (spec_event_write ext pm) xs)"
  then obtain k ev where "spec_event_write ext pm (k, ev) = Some c"
    by (auto simp: map_filter_def)
  then show "contract_of c = None"
    by (auto simp: spec_event_write_def split: sum.splits dest: event_switch_no_contract)
qed

lemma contract_records_txs:
  "contract_records (concat (map (spec_tx_writes ext pm) txs)) =
   map (\<lambda>tx. smart_contract_entry ext pm tx (name (payload (raw_tx tx)))
          (codeBody (payload (raw_tx tx))))
     (filter is_deployment txs)"
  by (induction txs)
     (auto simp: spec_tx_writes_def is_deployment_def split: TransactionPayload.splits)

lemma contract_records_spec_writes:
  "contract_records (spec_writes ext pm) =
   map (\<lambda>tx. smart_contract_entry ext pm tx (name (payload (raw_tx tx)))
          (codeBody (payload (raw_tx tx))))
     (filter is_deployment (parsed_transactions pm))"
  by (simp add: spec_writes_def spec_writes_upto_def contract_records_events contract_records_txs)

lemma prefix_contract_records: "prefix cs ds \<Longrightarrow> prefix (contract_records cs) (contract_records ds)"
  by (auto simp: prefix_def)

text \<open>
  Claim C7. The contract records that \<^verbatim>\<open>handleClientMessage\<close> writes for a message are,
  in order, one for each transaction whose payload deploys a contract: its contract
  identifier is the sender address of the transaction, a dot and the name of the contract,
  its canonical flag is true, and it names the transaction. A handling that is rejected
  has written a prefix of them.
\<close>

theorem contract_record_of_deployment:
  assumes "readMessageFromStream ext (incoming clientSocket) = Inr (Some msg)"
    and "parseMessageTransactions ext msg = Inr parsedMsg"
    and "length (parsed_transactions parsedMsg) = length (transactions parsedMsg)"
  shows "\<exists>cs. calls (handleClientMessage ext clientSocket db tr) = tr @ cs \<and>
      prefix
        (map (\<lambda>r. (DbSmartContract.tx_id r, contract_id r, DbSmartContract.canonical r))
          (contract_records cs))
        (map (\<lambda>tx. (CoreNodeTxMessage.txid (core_tx tx),
                    sender_address tx @ ''.'' @ name (payload (raw_tx tx)), True))
          (filter is_deployment (parsed_transactions parsedMsg))) \<and>
      (rejection (handleClientMessage ext clientSocket db tr) = None \<longrightarrow>
         map (\<lambda>r. (DbSmartContract.tx_id r, contract_id r, DbSmartContract.canonical r))
           (contract_records cs) =
         map (\<lambda>tx. (CoreNodeTxMessage.txid (core_tx tx),
                     sender_address tx @ ''.'' @ name (payload (raw_tx tx)), True))
           (filter is_deployment (parsed_transactions parsedMsg)))"
proof -
  let ?r = "handleClientMessage ext clientSocket db tr"
  let ?f = "\<lambda>r. (DbSmartContract.tx_id r, contract_id r, DbSmartContract.canonical r)"
  let ?g = "\<lambda>tx. (CoreNodeTxMessage.txid (core_tx tx),
                    sender_address tx @ ''.'' @ name (payload (raw_tx tx)), True)"
  obtain cs where cs: "calls ?r = tr @ cs" "prefix cs (spec_writes ext parsedMsg)"
    "rejection ?r = None \<longrightarrow> cs = spec_writes ext parsedMsg"
    using calls_follow_spec [OF assms, of db tr] by auto
  have eq: "map ?f (contract_records (spec_writes ext parsedMsg)) =
      map ?g (filter is_deployment (parsed_transactions parsedMsg))"
    by (simp add: contract_records_spec_writes smart_contract_entry_def Let_def)
  have "prefix (map ?f (contract_records cs)) (map ?f (contract_records (spec_writes ext parsedMsg)))"
    using cs(2) by (intro map_mono_prefix prefix_contract_records)
  then have 1: "prefix (map ?f (contract_records cs))
      (map ?g (filter is_deployment (parsed_transactions parsedMsg)))"
    by (simp only: eq)
  have 2: "map ?f (contract_records cs) =
      map ?g (filter is_deployment (parsed_transactions parsedMsg))" if "rejection ?r = None"
    using cs(3) that eq by simp
  show ?thesis
    using cs(1) 1 2 by (intro exI [of _ cs]) simp
qed


theorem contract_record_of_deployment_witness:
  "readMessageFromStream example_ext (incoming scenario_socket) = Inr (Some scenario_message) \<and>
   parseMessageTransactions example_ext scenario_message = Inr scenario_parsed \<and>
   length (parsed_transactions scenario_parsed) = length (transactions scenario_parsed) \<and>
   rejection (handleClientMessage example_ext scenario_socket willing_store []) = None \<and>
   filter is_deployment (parsed_transactions scenario_parsed) = parsed_transactions scenario_parsed \<and>
   map (\<lambda>r. (DbSmartContract.tx_id r, contract_id r, DbSmartContract.canonical r))
     (contract_records (calls (handleClientMessage example_ext scenario_socket willing_store []))) =
     [(''0x01'', ''SPabc.foo'', True)]"
proof -
  have r: "readMessageFromStream example_ext (incoming scenario_socket) = Inr (Some scenario_message)"
    by code_simp
  have p: "parseMessageTransactions example_ext scenario_message = Inr scenario_parsed"
    by code_simp
  have l: "length (parsed_transactions scenario_parsed) = length (transactions scenario_parsed)"
    by code_simp
  have f: "rejection (handleClientMessage example_ext scenario_socket willing_store []) = None"
    by code_simp
  have d: "filter is_deployment (parsed_transactions scenario_parsed) =
      parsed_transactions scenario_parsed"
    by code_simp
  have v: "map (\<lambda>tx. (CoreNodeTxMessage.txid (core_tx tx),
               sender_address tx @ ''.'' @ name (payload (raw_tx tx)), True))
             (parsed_transactions scenario_parsed) = [(''0x01'', ''SPabc.foo'', True)]"
    by code_simp
  show ?thesis
    using contract_record_of_deployment [OF r p l, of willing_store "[]"] r p l f d v by auto
qed

section \<open>The canonical flag\<close>

lemma handle_calls_cases:
  "calls (handleClientMessage ext sock db tr) = tr \<or>
   (\<exists>msg pm cs. readMessageFromStream ext (incoming sock) = Inr (Some msg) \<and>
      parseMessageTransactions ext msg = Inr pm \<and>
      calls (handleClientMessage ext sock db tr) = tr @ cs \<and>
      prefix (map Inr cs) (message_steps ext pm))"
proof (cases "readMessageFromStream ext (incoming sock)")
  case (Inl err)
  then show ?thesis by (simp add: handleClientMessage_def)
next
  case (Inr res)
  show ?thesis
  proof (cases res)
    case None
    with Inr show ?thesis by (simp add: handleClientMessage_def)
  next
    case (Some msg)
    show ?thesis
    proof (cases "parseMessageTransactions ext msg")
      case (Inl m)
      with Inr Some show ?thesis
        by (simp add: handleClientMessage_def apply_message_def throw_def)
    next
      case r: (Inr pm)
      from Inr Some have "readMessageFromStream ext (incoming sock) = Inr (Some msg)"
        by simp
      from new_calls [OF this r, of db tr] this r show ?thesis
        by auto
    qed
  qed
qed

lemma message_step_canonical:
  assumes "Inr c \<in> set (message_steps ext pm)"
  shows "canonical_of c \<noteq> Some False"
proof -
  from assms consider "c = updateBlock (dbBlock_entry pm)"
    | i where "Inr c \<in> set (tx_steps ext pm i)"
    | i where "event_step ext pm i = Inr c"
    by (auto simp: message_steps_def)
  then show ?thesis
  proof cases
    case 1
    then show ?thesis by (simp add: canonical_of_def dbBlock_entry_def)
  next
    case 2
    then show ?thesis
      using tx_steps_cases [OF 2]
      by (auto simp: canonical_of_def smart_contract_entry_def Let_def)
  next
    case 3
    then show ?thesis
      by (auto simp: event_step_def dbEvent_base_def Let_def dest!: event_switch_canonical)
  qed
qed

text \<open>
  Claim C9. Every record that \<^verbatim>\<open>handleClientMessage\<close> builds and hands to the store (the
  block record, the contract records and the event records of all four variants) has its
  canonical flag set. The transaction record is built by \<^verbatim>\<open>createDbTxFromCoreMsg\<close> and is
  not part of the claim.
\<close>

theorem written_records_canonical:
  "\<forall>c \<in> set (drop (length tr) (calls (handleClientMessage ext clientSocket db tr))).
     canonical_of c \<noteq> Some False"
proof
  fix c
  assume c: "c \<in> set (drop (length tr) (calls (handleClientMessage ext clientSocket db tr)))"
  from handle_calls_cases [of ext clientSocket db tr] show "canonical_of c \<noteq> Some False"
  proof
    assume "calls (handleClientMessage ext clientSocket db tr) = tr"
    with c show ?thesis by simp
  next
    assume "\<exists>msg pm cs. readMessageFromStream ext (incoming clientSocket) = Inr (Some msg) \<and>
      parseMessageTransactions ext msg = Inr pm \<and>
      calls (handleClientMessage ext clientSocket db tr) = tr @ cs \<and>
      prefix (map Inr cs) (message_steps ext pm)"
    then obtain pm cs where cs: "calls (handleClientMessage ext clientSocket db tr) = tr @ cs"
      "prefix (map Inr cs) (message_steps ext pm)"
      by auto
    from c cs(1) have "c \<in> set cs" by simp
    then have "Inr c \<in> set (map Inr cs)" by simp
    with cs(2) have "Inr c \<in> set (message_steps ext pm)"
      using set_mono_prefix by blast
    then show ?thesis by (rule message_step_canonical)
  qed
qed

theorem written_records_canonical_witness:
  "updateBlock (dbBlock_entry scenario_parsed) \<in>
     set (drop (length ([] :: string store_call list))
       (calls (handleClientMessage example_ext scenario_socket willing_store []))) \<and>
   canonical_of (updateBlock (dbBlock_entry scenario_parsed) :: string store_call) \<noteq> Some False \<and>
   length (calls (handleClientMessage example_ext scenario_socket willing_store [])) = 5"
proof -
  have m: "updateBlock (dbBlock_entry scenario_parsed) \<in>
     set (drop (length ([] :: string store_call list))
       (calls (handleClientMessage example_ext scenario_socket willing_store [])))"
    by code_simp
  have l: "length (calls (handleClientMessage example_ext scenario_socket willing_store [])) = 5"
    by code_simp
  show ?thesis
    using written_records_canonical [of "[]" example_ext scenario_socket willing_store] m l
    by blast
qed

section \<open>A socket without a message\<close>

lemma run_rejection:
  "fst (run db ss tr) = Some e \<Longrightarrow> Inl e \<in> set ss \<or> (\<exists>m. e = StoreError m)"
  by (induction db ss tr rule: run.induct) (auto split: option.splits)

lemma tx_steps_no_throw:
  "i < length (parsed_transactions pm) \<Longrightarrow> Inl e \<notin> set (tx_steps ext pm i)"
  by (auto simp: tx_steps_def Let_def split: TransactionPayload.splits)

text \<open>
  Claim C10. When reading the socket gives no message, \<^verbatim>\<open>handleClientMessage\<close> is fulfilled
  without a call on the store and leaves the socket alone; when reading throws, it is
  fulfilled without a call on the store and has destroyed the socket. So a rejection, which
  is what the handler of the acceptor gets to see, implies that a message has been read, and
  it is the exception of the parser, or of the classification of one of the events, or of a
  call on the store (for a parser that decodes each transaction of the message).
\<close>

theorem read_failures_are_not_rejections:
  "(readMessageFromStream ext (incoming clientSocket) = Inr None \<longrightarrow>
      handleClientMessage ext clientSocket db tr =
        \<lparr>rejection = None, calls = tr, socket = clientSocket\<rparr>) \<and>
   (\<forall>err. readMessageFromStream ext (incoming clientSocket) = Inl err \<longrightarrow>
      handleClientMessage ext clientSocket db tr =
        \<lparr>rejection = None, calls = tr, socket = clientSocket\<lparr>destroyed := True\<rparr>\<rparr>) \<and>
   (\<forall>e. rejection (handleClientMessage ext clientSocket db tr) = Some e \<longrightarrow>
      (\<exists>msg. readMessageFromStream ext (incoming clientSocket) = Inr (Some msg) \<and>
         (case parseMessageTransactions ext msg of
            Inl m \<Rightarrow> e = ParseError m
          | Inr parsedMsg \<Rightarrow>
              length (parsed_transactions parsedMsg) = length (transactions parsedMsg) \<longrightarrow>
              (\<exists>k<length (events parsedMsg).
                  event_switch ext (dbEvent_base parsedMsg k) (body (events parsedMsg ! k)) =
                    Inl e) \<or>
              (\<exists>m. e = StoreError m))))"
proof (intro conjI allI impI)
  assume "readMessageFromStream ext (incoming clientSocket) = Inr None"
  then show "handleClientMessage ext clientSocket db tr =
      \<lparr>rejection = None, calls = tr, socket = clientSocket\<rparr>"
    by (simp add: handleClientMessage_def)
next
  fix err
  assume "readMessageFromStream ext (incoming clientSocket) = Inl err"
  then show "handleClientMessage ext clientSocket db tr =
      \<lparr>rejection = None, calls = tr, socket = clientSocket\<lparr>destroyed := True\<rparr>\<rparr>"
    by (simp add: handleClientMessage_def)
next
  fix e
  assume rej: "rejection (handleClientMessage ext clientSocket db tr) = Some e"
  then obtain msg where msg: "readMessageFromStream ext (incoming clientSocket) = Inr (Some msg)"
    by (auto simp: handleClientMessage_def split: sum.splits option.splits)
  have "case parseMessageTransactions ext msg of
            Inl m \<Rightarrow> e = ParseError m
          | Inr parsedMsg \<Rightarrow>
              length (parsed_transactions parsedMsg) = length (transactions parsedMsg) \<longrightarrow>
              (\<exists>k<length (events parsedMsg).
                  event_switch ext (dbEvent_base parsedMsg k) (body (events parsedMsg ! k)) =
                    Inl e) \<or>
              (\<exists>m. e = StoreError m)"
  proof (cases "parseMessageTransactions ext msg")
    case (Inl m)
    with rej msg show ?thesis
      by (simp add: handleClientMessage_def apply_message_def throw_def)
  next
    case (Inr pm)
    have "fst (run db (message_steps ext pm) tr) = Some e"
      using rej by (simp add: handle_run [OF msg Inr])
    then have steps: "Inl e \<in> set (message_steps ext pm) \<or> (\<exists>m. e = StoreError m)"
      by (rule run_rejection)
    have "(\<exists>k<length (events pm).
            event_switch ext (dbEvent_base pm k) (body (events pm ! k)) = Inl e) \<or>
          (\<exists>m. e = StoreError m)"
      if len: "length (parsed_transactions pm) = length (transactions pm)"
      using steps len tx_steps_no_throw [of _ pm e ext]
      by (auto simp: message_steps_def event_step_def)
    with Inr show ?thesis by simp
  qed
  with msg show "\<exists>msg. readMessageFromStream ext (incoming clientSocket) = Inr (Some msg) \<and>
         (case parseMessageTransactions ext msg of
            Inl m \<Rightarrow> e = ParseError m
          | Inr parsedMsg \<Rightarrow>
              length (parsed_transactions parsedMsg) = length (transactions parsedMsg) \<longrightarrow>
              (\<exists>k<length (events parsedMsg).
                  event_switch ext (dbEvent_base parsedMsg k) (body (events parsedMsg ! k)) =
                    Inl e) \<or>
              (\<exists>m. e = StoreError m))"
    by blast
qed


theorem read_failures_are_not_rejections_witness:
  "readMessageFromStream example_ext (incoming empty_socket) = Inr None \<and>
   handleClientMessage example_ext empty_socket willing_store [] =
     \<lparr>rejection = None, calls = [], socket = empty_socket\<rparr> \<and>
   readMessageFromStream example_ext (incoming malformed_socket) = Inl ''malformed message'' \<and>
   handleClientMessage example_ext malformed_socket willing_store [] =
     \<lparr>rejection = None, calls = [], socket = malformed_socket\<lparr>destroyed := True\<rparr>\<rparr> \<and>
   rejection (handleClientMessage example_ext odd_socket willing_store []) =
     Some (UnexpectedCoreNodeEventType ''stx_lock_event'') \<and>
   readMessageFromStream example_ext (incoming odd_socket) = Inr (Some odd_message) \<and>
   parseMessageTransactions example_ext odd_message = Inr odd_parsed \<and>
   length (parsed_transactions odd_parsed) = length (transactions odd_parsed) \<and>
   (\<exists>k<length (events odd_parsed).
      event_switch example_ext (dbEvent_base odd_parsed k) (body (events odd_parsed ! k)) =
        (Inl (UnexpectedCoreNodeEventType ''stx_lock_event'') :: error + string store_call))"
proof -
  have r1: "readMessageFromStream example_ext (incoming empty_socket) = Inr None"
    by code_simp
  have r2: "readMessageFromStream example_ext (incoming malformed_socket) =
      Inl ''malformed message''"
    by code_simp
  have r3: "readMessageFromStream example_ext (incoming odd_socket) = Inr (Some odd_message)"
    by code_simp
  have p3: "parseMessageTransactions example_ext odd_message = Inr odd_parsed"
    by code_simp
  have l3: "length (parsed_transactions odd_parsed) = length (transactions odd_parsed)"
    by code_simp
  have e3: "rejection (handleClientMessage example_ext odd_socket willing_store []) =
      Some (UnexpectedCoreNodeEventType ''stx_lock_event'')"
    by code_simp
  note t1 = read_failures_are_not_rejections [of example_ext empty_socket willing_store "[]"]
  note t2 = read_failures_are_not_rejections [of example_ext malformed_socket willing_store "[]"]
  note t3 = read_failures_are_not_rejections [of example_ext odd_socket willing_store "[]"]
  have c1: "handleClientMessage example_ext empty_socket willing_store [] =
      \<lparr>rejection = None, calls = [], socket = empty_socket\<rparr>"
    using t1 r1 by blast
  have c2: "handleClientMessage example_ext malformed_socket willing_store [] =
      \<lparr>rejection = None, calls = [], socket = malformed_socket\<lparr>destroyed := True\<rparr>\<rparr>"
    using t2 r2 by blast
  have c3: "\<exists>k<length (events odd_parsed).
      event_switch example_ext (dbEvent_base odd_parsed k) (body (events odd_parsed ! k)) =
        (Inl (UnexpectedCoreNodeEventType ''stx_lock_event'') :: error + string store_call)"
    using t3 e3 r3 p3 l3 by auto
  show ?thesis
    using r1 r2 r3 p3 l3 e3 c1 c2 c3 by blast
qed

section \<open>Hex values\<close>

lemma hex_digit_hex_char: "n < 16 \<Longrightarrow> hex_digit (hex_char n) = Some n"
  by (auto simp: hex_digit_def hex_char_def Let_def)

lemma hex_pairs_hex_of_byte:
  "hex_pairs (hex_of_byte b @ cs) =
     (case hex_pairs cs of Inl m \<Rightarrow> Inl m | Inr bs \<Rightarrow> Inr (b # bs))"
proof -
  have "unat b < 2 ^ LENGTH(8)"
    by (rule unsigned_less)
  then have hi: "unat b div 16 < 16"
    by simp
  have lo: "unat b mod 16 < 16"
    by simp
  have "16 * (unat b div 16) + unat b mod 16 = unat b"
    by simp
  then have recombine: "(of_nat (16 * (unat b div 16) + unat b mod 16) :: 8 word) = b"
    by (simp only: of_nat_unat ucast_id)
  have "hex_pairs (hex_of_byte b @ cs) =
     (case hex_pairs cs of Inl m \<Rightarrow> Inl m
      | Inr bs \<Rightarrow> Inr (of_nat (16 * (unat b div 16) + unat b mod 16) # bs))"
    by (simp add: hex_of_byte_def hex_digit_hex_char [OF hi] hex_digit_hex_char [OF lo])
  then show ?thesis
    by (simp only: recombine)
qed

lemma hex_pairs_encoded: "hex_pairs (concat (map hex_of_byte bs)) = Inr bs"
  by (induction bs) (simp_all add: hex_pairs_hex_of_byte)

lemma hexToBuffer_hex_string: "helpers_hexToBuffer (hex_string bs) = Inr bs"
  by (simp add: helpers_hexToBuffer_def hex_string_def hex_pairs_encoded)

lemma hexToBuffer_empty: "helpers_hexToBuffer [] = Inr []"
  by (simp add: helpers_hexToBuffer_def)

text \<open>
  Claim C8. With \<^verbatim>\<open>hexToBuffer\<close> as the specification describes it, the value stored in
  the record of a contract log, of a transfer or of a mint of a non-fungible token is the
  byte sequence that the hex string of the event represents: the string \<^verbatim>\<open>0x\<close> followed
  by two digits for each of the bytes \<open>v\<close> is stored as \<open>v\<close>, and the empty string is
  stored as no bytes, not thrown as an error.
\<close>

theorem hex_values_decoded:
  assumes "hexToBuffer ext = helpers_hexToBuffer"
  shows
   "helpers_hexToBuffer (hex_string bs) = Inr bs \<and>
    helpers_hexToBuffer [] = Inr [] \<and>
    (contract_event.raw_value ce = hex_string v1 \<longrightarrow>
       (\<exists>c. event_switch ext dbEvent (ContractEvent ce) = Inr c \<and> value_of c = Some v1)) \<and>
    (contract_event.raw_value ce = [] \<longrightarrow>
       (\<exists>c. event_switch ext dbEvent (ContractEvent ce) = Inr c \<and> value_of c = Some [])) \<and>
    (nft_transfer_event.raw_value nt = hex_string v2 \<longrightarrow>
       (\<exists>c. event_switch ext dbEvent (NftTransferEvent nt) = Inr c \<and> value_of c = Some v2)) \<and>
    (nft_transfer_event.raw_value nt = [] \<longrightarrow>
       (\<exists>c. event_switch ext dbEvent (NftTransferEvent nt) = Inr c \<and> value_of c = Some [])) \<and>
    (nft_mint_event.raw_value nm = hex_string v3 \<longrightarrow>
       (\<exists>c. event_switch ext dbEvent (NftMintEvent nm) = Inr c \<and> value_of c = Some v3)) \<and>
    (nft_mint_event.raw_value nm = [] \<longrightarrow>
       (\<exists>c. event_switch ext dbEvent (NftMintEvent nm) = Inr c \<and> value_of c = Some []))"
  by (simp add: assms hexToBuffer_hex_string hexToBuffer_empty with_value_def value_of_def
      DbEventBase.extend_def)

theorem hex_values_decoded_witness:
  "hexToBuffer example_ext = helpers_hexToBuffer \<and>
   helpers_hexToBuffer ''0x0100'' = Inr [1, 0] \<and>
   contract_event.raw_value a_log = hex_string [1, 0] \<and>
   (\<exists>c. event_switch example_ext (dbEvent_base scenario_parsed 1) (ContractEvent a_log) =
          (Inr c :: error + string store_call) \<and> value_of c = Some [1, 0]) \<and>
   nft_transfer_event.raw_value a_nft_transfer = hex_string [42] \<and>
   (\<exists>c. event_switch example_ext (dbEvent_base scenario_parsed 1) (NftTransferEvent a_nft_transfer) =
          (Inr c :: error + string store_call) \<and> value_of c = Some [42]) \<and>
   nft_mint_event.raw_value (a_nft_mint\<lparr>nft_mint_event.raw_value := ''0xff''\<rparr>) = hex_string [255] \<and>
   (\<exists>c. event_switch example_ext (dbEvent_base scenario_parsed 1)
            (NftMintEvent (a_nft_mint\<lparr>nft_mint_event.raw_value := ''0xff''\<rparr>)) =
          (Inr c :: error + string store_call) \<and> value_of c = Some [255]) \<and>
   contract_event.raw_value (a_log\<lparr>contract_event.raw_value := []\<rparr>) = [] \<and>
   (\<exists>c. event_switch example_ext (dbEvent_base scenario_parsed 1)
            (ContractEvent (a_log\<lparr>contract_event.raw_value := []\<rparr>)) =
          (Inr c :: error + string store_call) \<and> value_of c = Some []) \<and>
   nft_transfer_event.raw_value (a_nft_transfer\<lparr>nft_transfer_event.raw_value := []\<rparr>) = [] \<and>
   (\<exists>c. event_switch example_ext (dbEvent_base scenario_parsed 1)
            (NftTransferEvent (a_nft_transfer\<lparr>nft_transfer_event.raw_value := []\<rparr>)) =
          (Inr c :: error + string store_call) \<and> value_of c = Some []) \<and>
   nft_mint_event.raw_value a_nft_mint = [] \<and>
   (\<exists>c. event_switch example_ext (dbEvent_base scenario_parsed 1) (NftMintEvent a_nft_mint) =
          (Inr c :: error + string store_call) \<and> value_of c = Some [])"
proof -
  have h: "hexToBuffer example_ext = helpers_hexToBuffer"
    by (simp add: example_ext_def)
  have s: "hex_string [1, 0] = ''0x0100''"
    by code_simp
  have p1: "contract_event.raw_value a_log = hex_string [1, 0]"
    by code_simp
  have p2: "nft_transfer_event.raw_value a_nft_transfer = hex_string [42]"
    by code_simp
  have p3: "nft_mint_event.raw_value (a_nft_mint\<lparr>nft_mint_event.raw_value := ''0xff''\<rparr>) =
      hex_string [255]"
    by code_simp
  have q1: "contract_event.raw_value (a_log\<lparr>contract_event.raw_value := []\<rparr>) = []"
    by simp
  have q2: "nft_transfer_event.raw_value (a_nft_transfer\<lparr>nft_transfer_event.raw_value := []\<rparr>) = []"
    by simp
  have q3: "nft_mint_event.raw_value a_nft_mint = []"
    by (simp add: a_nft_mint_def)
  note full = hex_values_decoded [OF h, where bs = "[1, 0]" and ce = a_log and ?v1.0 = "[1, 0]"
      and nt = a_nft_transfer and ?v2.0 = "[42]"
      and nm = "a_nft_mint\<lparr>nft_mint_event.raw_value := ''0xff''\<rparr>" and ?v3.0 = "[255]"
      and dbEvent = "dbEvent_base scenario_parsed 1"]
  note empty = hex_values_decoded [OF h, where ce = "a_log\<lparr>contract_event.raw_value := []\<rparr>"
      and nt = "a_nft_transfer\<lparr>nft_transfer_event.raw_value := []\<rparr>"
      and nm = a_nft_mint and dbEvent = "dbEvent_base scenario_parsed 1"]
  have r: "helpers_hexToBuffer ''0x0100'' = Inr [1, 0]"
    using full s by simp
  show ?thesis
    using h r p1 p2 p3 q1 q2 q3 full empty by blast
qed

section \<open>Failures\<close>

lemma run_extends: "\<exists>cs. snd (run db ss tr) = tr @ cs"
  using run_issues [of db ss tr] by auto

lemma run_rejected_call_is_last:
  assumes "prefix tr tr'" and "prefix (tr' @ [c]) (snd (run db ss tr))" and "db tr' c = Some m"
  shows "run db ss tr = (Some (StoreError m), tr' @ [c])"
  using assms
proof (induction db ss tr rule: run.induct)
  case (1 db tr)
  then have "length (tr' @ [c]) \<le> length tr" "length tr \<le> length tr'"
    by (auto dest: prefix_length_le)
  then show ?case by simp
next
  case (2 db e ss tr)
  then have "length (tr' @ [c]) \<le> length tr" "length tr \<le> length tr'"
    by (auto dest: prefix_length_le)
  then show ?case by simp
next
  case (3 db c0 ss tr)
  from "3.prems"(1) obtain ys where ys: "tr' = tr @ ys"
    by (auto simp: prefix_def)
  show ?case
  proof (cases "db tr c0")
    case (Some m0)
    with "3.prems"(2) ys have "prefix (ys @ [c]) [c0]"
      by simp
    then have "ys = [] \<and> c = c0"
      by (cases ys) auto
    with Some ys "3.prems"(3) show ?thesis
      by simp
  next
    case None
    obtain cs where cs: "snd (run db ss (tr @ [c0])) = (tr @ [c0]) @ cs"
      using run_extends by blast
    with "3.prems"(2) ys None have pre: "prefix (ys @ [c]) (c0 # cs)"
      by simp
    show ?thesis
    proof (cases ys)
      case Nil
      with pre have "c = c0" by simp
      with Nil ys None "3.prems"(3) show ?thesis by simp
    next
      case (Cons y ys')
      with pre have "y = c0" by simp
      with Cons ys have "prefix (tr @ [c0]) tr'"
        by simp
      moreover have "prefix (tr' @ [c]) (snd (run db ss (tr @ [c0])))"
        using "3.prems"(2) None by simp
      ultimately have "run db ss (tr @ [c0]) = (Some (StoreError m), tr' @ [c])"
        using "3.IH" [OF None] "3.prems"(3) by blast
      with None show ?thesis by simp
    qed
  qed
qed

lemma handle_rejected_call_is_last:
  assumes pre: "prefix tr tr'"
    and issued: "prefix (tr' @ [c]) (calls (handleClientMessage ext sock db tr))"
    and rej: "db tr' c = Some m"
  shows "handleClientMessage ext sock db tr =
     \<lparr>rejection = Some (StoreError m), calls = tr' @ [c], socket = sock\<rparr>"
proof -
  have "calls (handleClientMessage ext sock db tr) \<noteq> tr"
  proof
    assume "calls (handleClientMessage ext sock db tr) = tr"
    with pre issued have "length (tr' @ [c]) \<le> length tr" "length tr \<le> length tr'"
      by (auto dest: prefix_length_le)
    then show False by simp
  qed
  with handle_calls_cases [of ext sock db tr] obtain msg pm where
    mp: "readMessageFromStream ext (incoming sock) = Inr (Some msg)"
      "parseMessageTransactions ext msg = Inr pm"
    by auto
  have "prefix (tr' @ [c]) (snd (run db (message_steps ext pm) tr))"
    using issued by (simp add: handle_run [OF mp])
  from run_rejected_call_is_last [OF pre this rej] show ?thesis
    by (simp add: handle_run [OF mp])
qed

lemma all_calls_map_Inr:
  "(\<And>s. s \<in> set ss \<Longrightarrow> \<exists>c. s = Inr c) \<Longrightarrow> map Inr (writes_of ss) = ss"
proof (induction ss)
  case Nil
  show ?case by simp
next
  case (Cons s ss)
  then obtain c where "s = Inr c" by auto
  with Cons show ?case by simp
qed

lemma message_steps_upto:
  assumes len: "length (parsed_transactions pm) = length (transactions pm)"
    and k: "k \<le> length (events pm)"
    and ok: "\<And>j. j < k \<Longrightarrow> spec_event_write ext pm (j, events pm ! j) \<noteq> None"
  shows "message_steps ext pm =
     map Inr (spec_writes_upto ext pm k) @ map (event_step ext pm) [k..<length (events pm)]"
proof -
  let ?hs = "Inr (updateBlock (dbBlock_entry pm)) #
      concat (map (tx_steps ext pm) [0..<length (transactions pm)]) @
      map (event_step ext pm) [0..<k]"
  have "\<exists>c. s = Inr c" if "s \<in> set ?hs" for s
  proof -
    from that consider "s = Inr (updateBlock (dbBlock_entry pm))"
      | i where "i < length (parsed_transactions pm)" "s \<in> set (tx_steps ext pm i)"
      | j where "j < k" "s = event_step ext pm j"
      using len by auto
    then show ?thesis
    proof cases
      case 1
      then show ?thesis by simp
    next
      case 2
      then show ?thesis
        using tx_steps_no_throw [OF 2(1), of _ ext] by (cases s) auto
    next
      case 3
      then show ?thesis
        using ok [OF 3(1)] event_step_write [of ext pm j] by (cases "event_step ext pm j") auto
    qed
  qed
  then have a: "map Inr (writes_of ?hs) = ?hs"
    by (rule all_calls_map_Inr)
  have b: "writes_of ?hs = spec_writes_upto ext pm k"
    using len k by (rule writes_of_message_steps_upto)
  have hs: "?hs = map Inr (spec_writes_upto ext pm k)"
    using a by (simp only: b)
  have split: "[0..<length (events pm)] = [0..<k] @ [k..<length (events pm)]"
    using k by (metis le_add_diff_inverse upt_add_eq_append zero_le)
  have "message_steps ext pm = ?hs @ map (event_step ext pm) [k..<length (events pm)]"
    unfolding message_steps_def by (subst split) simp
  then show ?thesis
    by (simp only: hs)
qed

lemma unexpected_event_aborts:
  assumes r: "readMessageFromStream ext (incoming sock) = Inr (Some msg)"
    and p: "parseMessageTransactions ext msg = Inr pm"
    and len: "length (parsed_transactions pm) = length (transactions pm)"
    and k: "k < length (events pm)"
    and odd: "body (events pm ! k) = UnexpectedEvent t"
    and ok: "\<forall>j<k. spec_event_write ext pm (j, events pm ! j) \<noteq> None"
    and acc: "accepts db tr (spec_writes_upto ext pm k)"
  shows "handleClientMessage ext sock db tr =
     \<lparr>rejection = Some (UnexpectedCoreNodeEventType t),
      calls = tr @ spec_writes_upto ext pm k, socket = sock\<rparr>"
proof -
  have "[k..<length (events pm)] = k # [Suc k..<length (events pm)]"
    using k by (simp add: upt_rec)
  moreover have "event_step ext pm k = Inl (UnexpectedCoreNodeEventType t)"
    by (simp add: event_step_def odd)
  ultimately have "message_steps ext pm =
      map Inr (spec_writes_upto ext pm k) @
      Inl (UnexpectedCoreNodeEventType t) # map (event_step ext pm) [Suc k..<length (events pm)]"
    using message_steps_upto [OF len, of k ext] k ok by simp
  then show ?thesis
    by (simp add: handle_run [OF r p] run_accepted [OF acc])
qed

lemma rejected_task_frees_queue:
  assumes "active s = [job]"
    and "resume ext db job (store_calls s) = (Inr (sock', Some e), tr')"
    and "queued s = next_socket # rest"
  shows "exec ext db processorQueue_concurrency [Resume 0, Start] s =
     s\<lparr>queued := rest, active := [Reading next_socket], store_calls := tr',
       finished := finished s @ [(sock', Some e)]\<rparr>"
  using assms by (simp add: processorQueue_concurrency_def)

text \<open>
  Claim C2. When handling a message fails part of the way, the rest of the message is given
  up, what has been written stays, and the failure is the rejection of the promise.
  \<^item> A call that the store rejects is the last call of the handling, and the handling is
    rejected with the error of the store; the calls issued before it stay issued.
  \<^item> An event of a type outside the eight, reached after the writes before it have been
    fulfilled, rejects the handling with the error of the switch; the calls issued are those
    for the block, the transactions and the events before it, so there is no record for the
    event and none for the events after it.
  \<^item> The queue goes on: when the task that runs is rejected, the rejection is recorded and
    the queue starts the next task.
\<close>

theorem failure_aborts_message:
  "(\<forall>tr' c m.
      prefix tr tr' \<and>
      prefix (tr' @ [c]) (calls (handleClientMessage ext clientSocket db tr)) \<and>
      db tr' c = Some m \<longrightarrow>
      handleClientMessage ext clientSocket db tr =
        \<lparr>rejection = Some (StoreError m), calls = tr' @ [c], socket = clientSocket\<rparr>) \<and>
   (readMessageFromStream ext (incoming clientSocket) = Inr (Some msg) \<and>
    parseMessageTransactions ext msg = Inr parsedMsg \<and>
    length (parsed_transactions parsedMsg) = length (transactions parsedMsg) \<and>
    k < length (events parsedMsg) \<and>
    body (events parsedMsg ! k) = UnexpectedEvent t \<and>
    (\<forall>j<k. spec_event_write ext parsedMsg (j, events parsedMsg ! j) \<noteq> None) \<and>
    accepts db tr (spec_writes_upto ext parsedMsg k) \<longrightarrow>
      handleClientMessage ext clientSocket db tr =
        \<lparr>rejection = Some (UnexpectedCoreNodeEventType t),
         calls = tr @ spec_writes_upto ext parsedMsg k, socket = clientSocket\<rparr>) \<and>
   (active s = [job] \<and>
    resume ext db job (store_calls s) = (Inr (sock', Some e), tr'') \<and>
    queued s = next_socket # rest \<longrightarrow>
      exec ext db processorQueue_concurrency [Resume 0, Start] s =
        s\<lparr>queued := rest, active := [Reading next_socket], store_calls := tr'',
          finished := finished s @ [(sock', Some e)]\<rparr>)"
  using handle_rejected_call_is_last [of tr _ _ ext clientSocket db]
    unexpected_event_aborts [of ext clientSocket msg parsedMsg k t db tr]
    rejected_task_frees_queue [of s job ext db sock' e tr'' next_socket rest]
  by blast

theorem failure_aborts_message_witness:
  "prefix [] [updateBlock (dbBlock_entry scenario_parsed), updateTx ''0x01''] \<and>
   prefix
     ([updateBlock (dbBlock_entry scenario_parsed), updateTx ''0x01''] @
      [updateSmartContract (smart_contract_entry example_ext scenario_parsed
         (parsed_transactions scenario_parsed ! 0) ''foo'' ''(print 1)'')])
     (calls (handleClientMessage example_ext scenario_socket (failing_store 2) [])) \<and>
   failing_store 2 [updateBlock (dbBlock_entry scenario_parsed), updateTx ''0x01'']
     (updateSmartContract (smart_contract_entry example_ext scenario_parsed
        (parsed_transactions scenario_parsed ! 0) ''foo'' ''(print 1)'')) =
     Some ''connection lost'' \<and>
   handleClientMessage example_ext scenario_socket (failing_store 2) [] =
     \<lparr>rejection = Some (StoreError ''connection lost''),
      calls = [updateBlock (dbBlock_entry scenario_parsed), updateTx ''0x01''] @
        [updateSmartContract (smart_contract_entry example_ext scenario_parsed
           (parsed_transactions scenario_parsed ! 0) ''foo'' ''(print 1)'')],
      socket = scenario_socket\<rparr> \<and>
   readMessageFromStream example_ext (incoming odd_socket) = Inr (Some odd_message) \<and>
   parseMessageTransactions example_ext odd_message = Inr odd_parsed \<and>
   length (parsed_transactions odd_parsed) = length (transactions odd_parsed) \<and>
   1 < length (events odd_parsed) \<and>
   body (events odd_parsed ! 1) = UnexpectedEvent ''stx_lock_event'' \<and>
   (spec_event_write example_ext odd_parsed (0, events odd_parsed ! 0)
      :: string store_call option) \<noteq> None \<and>
   accepts willing_store [] (spec_writes_upto example_ext odd_parsed 1) \<and>
   handleClientMessage example_ext odd_socket willing_store [] =
     \<lparr>rejection = Some (UnexpectedCoreNodeEventType ''stx_lock_event''),
      calls = [] @ spec_writes_upto example_ext odd_parsed 1, socket = odd_socket\<rparr> \<and>
   length (spec_writes_upto example_ext odd_parsed 1 :: string store_call list) = 4 \<and>
   active (server_after example_ext willing_store
     [Connect odd_socket, Connect scenario_socket, Start,
      Resume 0, Resume 0, Resume 0, Resume 0, Resume 0]) =
     [Applying odd_socket (drop 4 (message_steps example_ext odd_parsed))] \<and>
   resume example_ext willing_store
     (Applying odd_socket (drop 4 (message_steps example_ext odd_parsed)))
     (store_calls (server_after example_ext willing_store
       [Connect odd_socket, Connect scenario_socket, Start,
        Resume 0, Resume 0, Resume 0, Resume 0, Resume 0])) =
     (Inr (odd_socket, Some (UnexpectedCoreNodeEventType ''stx_lock_event'')),
      spec_writes_upto example_ext odd_parsed 1) \<and>
   queued (server_after example_ext willing_store
     [Connect odd_socket, Connect scenario_socket, Start,
      Resume 0, Resume 0, Resume 0, Resume 0, Resume 0]) = scenario_socket # [] \<and>
   exec example_ext willing_store processorQueue_concurrency [Resume 0, Start]
     (server_after example_ext willing_store
       [Connect odd_socket, Connect scenario_socket, Start,
        Resume 0, Resume 0, Resume 0, Resume 0, Resume 0]) =
     \<lparr>queued = [], active = [Reading scenario_socket],
      store_calls = spec_writes_upto example_ext odd_parsed 1,
      finished = [(odd_socket, Some (UnexpectedCoreNodeEventType ''stx_lock_event''))]\<rparr>"
proof -
  let ?tr' = "[updateBlock (dbBlock_entry scenario_parsed), updateTx ''0x01'']
    :: string store_call list"
  let ?c = "updateSmartContract (smart_contract_entry example_ext scenario_parsed
         (parsed_transactions scenario_parsed ! 0) ''foo'' ''(print 1)'') :: string store_call"
  let ?s = "server_after example_ext willing_store
     [Connect odd_socket, Connect scenario_socket, Start,
      Resume 0, Resume 0, Resume 0, Resume 0, Resume 0]"
  let ?job = "Applying odd_socket (drop 4 (message_steps example_ext odd_parsed))
    :: string job"
  let ?e = "UnexpectedCoreNodeEventType ''stx_lock_event''"
  have a1: "prefix [] ?tr'"
    by simp
  have a2: "prefix (?tr' @ [?c])
      (calls (handleClientMessage example_ext scenario_socket (failing_store 2) []))"
    by code_simp
  have a3: "failing_store 2 ?tr' ?c = Some ''connection lost''"
    by code_simp
  have b1: "readMessageFromStream example_ext (incoming odd_socket) = Inr (Some odd_message)"
    by code_simp
  have b2: "parseMessageTransactions example_ext odd_message = Inr odd_parsed"
    by code_simp
  have b3: "length (parsed_transactions odd_parsed) = length (transactions odd_parsed)"
    by code_simp
  have b4: "1 < length (events odd_parsed)"
    by code_simp
  have b5: "body (events odd_parsed ! 1) = UnexpectedEvent ''stx_lock_event''"
    by code_simp
  have b6: "(spec_event_write example_ext odd_parsed (0, events odd_parsed ! 0)
      :: string store_call option) \<noteq> None"
    by code_simp
  then have b6': "\<forall>j<1. (spec_event_write example_ext odd_parsed (j, events odd_parsed ! j)
      :: string store_call option) \<noteq> None"
    by simp
  have b7: "accepts willing_store [] (spec_writes_upto example_ext odd_parsed 1)"
    by code_simp
  have b8: "length (spec_writes_upto example_ext odd_parsed 1 :: string store_call list) = 4"
    by code_simp
  have c1: "active ?s = [?job]"
    by code_simp
  have c2: "resume example_ext willing_store ?job (store_calls ?s) =
      (Inr (odd_socket, Some ?e), spec_writes_upto example_ext odd_parsed 1)"
    by code_simp
  have c3: "queued ?s = scenario_socket # []"
    by code_simp
  have c4: "?s\<lparr>queued := [], active := [Reading scenario_socket],
        store_calls := spec_writes_upto example_ext odd_parsed 1,
        finished := finished ?s @ [(odd_socket, Some ?e)]\<rparr> =
      \<lparr>queued = [], active = [Reading scenario_socket],
       store_calls = spec_writes_upto example_ext odd_parsed 1,
       finished = [(odd_socket, Some ?e)]\<rparr>"
    by code_simp
  note t1 = failure_aborts_message [where tr = "[]" and ext = example_ext
      and clientSocket = scenario_socket and db = "failing_store 2", THEN conjunct1,
      rule_format, of ?tr' ?c "''connection lost''"]
  note t2 = failure_aborts_message [where tr = "[]" and ext = example_ext
      and clientSocket = odd_socket and db = willing_store and msg = odd_message
      and parsedMsg = odd_parsed and k = 1 and t = "''stx_lock_event''",
      THEN conjunct2, THEN conjunct1, rule_format]
  note t3 = failure_aborts_message [where ext = example_ext and db = willing_store
      and s = ?s and job = ?job and sock' = odd_socket and e = ?e
      and tr'' = "spec_writes_upto example_ext odd_parsed 1"
      and next_socket = scenario_socket and rest = "[]",
      THEN conjunct2, THEN conjunct2, rule_format]
  have r1: "handleClientMessage example_ext scenario_socket (failing_store 2) [] =
     \<lparr>rejection = Some (StoreError ''connection lost''), calls = ?tr' @ [?c],
      socket = scenario_socket\<rparr>"
    using t1 a1 a2 a3 by blast
  have r2: "handleClientMessage example_ext odd_socket willing_store [] =
     \<lparr>rejection = Some ?e,
      calls = [] @ spec_writes_upto example_ext odd_parsed 1, socket = odd_socket\<rparr>"
    using t2 b1 b2 b3 b4 b5 b6' b7 by blast
  have r3: "exec example_ext willing_store processorQueue_concurrency [Resume 0, Start] ?s =
     \<lparr>queued = [], active = [Reading scenario_socket],
      store_calls = spec_writes_upto example_ext odd_parsed 1,
      finished = [(odd_socket, Some ?e)]\<rparr>"
    using t3 c1 c2 c3 c4 by simp
  show ?thesis
    using a1 a2 a3 r1 b1 b2 b3 b4 b5 b6 b7 r2 b8 c1 c2 c3 r3 by blast
qed

section \<open>The queue\<close>

lemma exec_append:
  "exec ext db n (as @ bs) s = exec ext db n bs (exec ext db n as s)"
  by (induction as arbitrary: s) auto

lemma connections_simps [simp]:
  "connections [] = []"
  "connections (as @ bs) = connections as @ connections bs"
  "connections [Connect sock] = [sock]"
  "connections [Start] = []"
  "connections [Resume j] = []"
  by (simp_all add: connections_def map_filter_def)

lemma serial_calls_append:
  "serial_calls ext db (xs @ ys) tr = serial_calls ext db ys (serial_calls ext db xs tr)"
  by (induction xs arbitrary: tr) auto

lemma serial_outcomes_append:
  "serial_outcomes ext db (xs @ ys) tr =
   serial_outcomes ext db xs tr @ serial_outcomes ext db ys (serial_calls ext db xs tr)"
  by (induction xs arbitrary: tr) (auto simp: Let_def)

lemma handle_extends: "prefix tr (calls (handleClientMessage ext sock db tr))"
  using handle_calls_cases [of ext sock db tr] by auto

lemma serial_calls_extends: "prefix tr (serial_calls ext db socks tr)"
proof (induction socks arbitrary: tr)
  case Nil
  show ?case by simp
next
  case (Cons sock socks)
  have "prefix tr (calls (handleClientMessage ext sock db tr))"
    by (rule handle_extends)
  also have "prefix \<dots> (serial_calls ext db socks (calls (handleClientMessage ext sock db tr)))"
    by (rule Cons.IH)
  finally show ?case by simp
qed

lemma run_prefix: "prefix tr (snd (run db ss tr))"
  using run_extends [of db ss tr] by auto

lemma complete_extends: "prefix tr (snd (complete ext db job tr))"
proof (cases job)
  case (Reading sock)
  then show ?thesis by (simp add: Let_def handle_extends)
next
  case (Applying sock ss)
  then show ?thesis
    using run_prefix [of tr db ss] by (cases "run db ss tr") simp
qed

lemma resume_goes_on:
  assumes "resume ext db job tr = (Inl job', tr')"
  shows "complete ext db job' tr' = complete ext db job tr"
    and "job_socket job' = job_socket job"
    and "prefix tr tr'"
proof -
  show "complete ext db job' tr' = complete ext db job tr"
    using assms
    by (induction ext db job tr rule: resume.induct)
       (auto simp: Let_def handle_run split: sum.splits option.splits prod.splits)
  show "job_socket job' = job_socket job"
    using assms
    by (induction ext db job tr rule: resume.induct)
       (auto split: sum.splits option.splits)
  show "prefix tr tr'"
    using assms
    by (induction ext db job tr rule: resume.induct)
       (auto split: sum.splits option.splits)
qed

lemma resume_settles:
  assumes "resume ext db job tr = (Inr fin, tr')"
  shows "complete ext db job tr = (fin, tr')"
  using assms
  by (induction ext db job tr rule: resume.induct)
     (auto simp: Let_def handleClientMessage_def apply_message_def throw_def
       split: sum.splits option.splits prod.splits)

text \<open>The state of the server with one task at a time, after some actions.\<close>

lemma one_at_a_time:
  assumes "s = exec ext db 1 acts idle_server"
  shows "\<exists>settled_sockets.
      connections acts = settled_sockets @ map job_socket (active s) @ queued s \<and>
      length (active s) \<le> 1 \<and>
      finished s = serial_outcomes ext db settled_sockets [] \<and>
      prefix (serial_calls ext db settled_sockets []) (store_calls s) \<and>
      (active s = [] \<longrightarrow> store_calls s = serial_calls ext db settled_sockets []) \<and>
      (\<forall>job. active s = [job] \<longrightarrow>
         complete ext db job (store_calls s) =
           complete ext db (Reading (job_socket job)) (serial_calls ext db settled_sockets []))"
  using assms
proof (induction acts arbitrary: s rule: rev_induct)
  case Nil
  then show ?case by (simp add: idle_server_def)
next
  case (snoc a acts s')
  define s where "s = exec ext db 1 acts idle_server"
  from snoc.IH [OF s_def] obtain ds where ds:
    "connections acts = ds @ map job_socket (active s) @ queued s"
    "length (active s) \<le> 1"
    "finished s = serial_outcomes ext db ds []"
    "prefix (serial_calls ext db ds []) (store_calls s)"
    "active s = [] \<longrightarrow> store_calls s = serial_calls ext db ds []"
    "\<forall>job. active s = [job] \<longrightarrow>
       complete ext db job (store_calls s) =
         complete ext db (Reading (job_socket job)) (serial_calls ext db ds [])"
    by blast
  have step: "s' = fire ext db 1 a s"
    using snoc.prems by (simp add: exec_append s_def)
  show ?case
  proof (cases a)
    case (Connect sock)
    with step have "s' = s\<lparr>queued := queued s @ [sock]\<rparr>"
      by simp
    then show ?thesis
      by (intro exI [of _ ds]) (use ds Connect in simp)
  next
    case Start
    show ?thesis
    proof (cases "queued s = [] \<or> active s \<noteq> []")
      case True
      with step Start have "s' = s"
        by (auto split: list.splits)
      with ds Start show ?thesis
        by (intro exI [of _ ds]) simp
    next
      case False
      then obtain sock rest where q: "queued s = sock # rest" and a: "active s = []"
        by (cases "queued s") auto
      with step Start have "s' = s\<lparr>queued := rest, active := [Reading sock]\<rparr>"
        by simp
      then show ?thesis
        by (intro exI [of _ ds]) (use ds q a Start in simp)
    qed
  next
    case (Resume j)
    show ?thesis
    proof (cases "j < length (active s)")
      case False
      with step Resume have "s' = s"
        by simp
      with ds Resume show ?thesis
        by (intro exI [of _ ds]) simp
    next
      case True
      with ds(2) obtain job where job: "active s = [job]" and j: "j = 0"
        by (cases "active s") auto
      from ds(6) job have c: "complete ext db job (store_calls s) =
          complete ext db (Reading (job_socket job)) (serial_calls ext db ds [])"
        by simp
      obtain res tr' where res: "resume ext db job (store_calls s) = (res, tr')"
        by (cases "resume ext db job (store_calls s)")
      show ?thesis
      proof (cases res)
        case (Inl job')
        from step Resume res Inl have f: "s' = s\<lparr>active := [job'], store_calls := tr'\<rparr>"
          by (simp add: job j)
        note g = resume_goes_on [OF res [unfolded Inl]]
        have "prefix (serial_calls ext db ds []) tr'"
          using ds(4) g(3) by (rule prefix_order.order_trans)
        then show ?thesis
          unfolding f
          by (intro exI [of _ ds]) (use ds job g c Resume in simp)
      next
        case (Inr fin)
        from step Resume res Inr have f: "s' =
            s\<lparr>active := [], store_calls := tr', finished := finished s @ [fin]\<rparr>"
          by (simp add: job j)
        from resume_settles [OF res [unfolded Inr]] c
        have fin: "complete ext db (Reading (job_socket job)) (serial_calls ext db ds []) = (fin, tr')"
          by simp
        let ?r = "handleClientMessage ext (job_socket job) db (serial_calls ext db ds [])"
        from fin have fin': "fin = (socket ?r, rejection ?r)" "tr' = calls ?r"
          by (simp_all add: Let_def)
        show ?thesis
          unfolding f
          by (intro exI [of _ "ds @ [job_socket job]"])
             (use ds job fin' Resume in \<open>simp add: serial_calls_append serial_outcomes_append Let_def\<close>)
      qed
    qed
  qed
qed


lemma run_willing:
  assumes "\<forall>tr c. db tr c = None"
  shows "run db ss tr = (fst (run db ss []), tr @ snd (run db ss []))"
proof (induction ss arbitrary: tr)
  case Nil
  show ?case by simp
next
  case (Cons s ss)
  show ?case
  proof (cases s)
    case (Inl e)
    then show ?thesis by simp
  next
    case (Inr c)
    have a: "run db ss (tr @ [c]) = (fst (run db ss []), (tr @ [c]) @ snd (run db ss []))"
      by (rule Cons.IH)
    have b: "run db ss [c] = (fst (run db ss []), [c] @ snd (run db ss []))"
      by (rule Cons.IH)
    have c: "db tr c = None" "db [] c = None"
      using assms by simp_all
    show ?thesis
      unfolding Inr by (simp add: a b c)
  qed
qed

lemma handle_willing:
  assumes "\<forall>tr c. db tr c = None"
  shows "calls (handleClientMessage ext sock db tr) =
     tr @ calls (handleClientMessage ext sock db [])"
proof (cases "readMessageFromStream ext (incoming sock)")
  case (Inl err)
  then show ?thesis by (simp add: handleClientMessage_def)
next
  case (Inr res)
  show ?thesis
  proof (cases res)
    case None
    with Inr show ?thesis by (simp add: handleClientMessage_def)
  next
    case (Some msg)
    show ?thesis
    proof (cases "parseMessageTransactions ext msg")
      case (Inl m)
      with Inr Some show ?thesis
        by (simp add: handleClientMessage_def apply_message_def throw_def)
    next
      case p: (Inr pm)
      from Inr Some have r: "readMessageFromStream ext (incoming sock) = Inr (Some msg)"
        by simp
      show ?thesis
        using run_willing [OF assms, of "message_steps ext pm" tr]
        by (simp add: handle_run [OF r p])
    qed
  qed
qed

lemma serial_calls_willing:
  assumes "\<forall>tr c. db tr c = None"
  shows "serial_calls ext db socks tr =
     tr @ concat (map (\<lambda>sock. calls (handleClientMessage ext sock db [])) socks)"
proof (induction socks arbitrary: tr)
  case Nil
  show ?case by simp
next
  case (Cons sock socks)
  show ?case
    using Cons.IH [of "calls (handleClientMessage ext sock db tr)"]
      handle_willing [OF assms, of ext sock tr]
    by simp
qed

lemma server_serial:
  fixes ext :: "('abi, 'dbtx) externals"
  shows "length (active (server_after ext db acts)) \<le> 1"
    and "prefix (store_calls (server_after ext db acts))
      (serial_calls ext db (connections acts) [])"
    and "queued (server_after ext db acts) = [] \<Longrightarrow> active (server_after ext db acts) = [] \<Longrightarrow>
      store_calls (server_after ext db acts) = serial_calls ext db (connections acts) [] \<and>
      finished (server_after ext db acts) = serial_outcomes ext db (connections acts) []"
proof -
  define s where "s = server_after ext db acts"
  then have "s = exec ext db 1 acts idle_server"
    by (simp add: server_after_def processorQueue_concurrency_def)
  from one_at_a_time [OF this] obtain ds where ds:
    "connections acts = ds @ map job_socket (active s) @ queued s"
    "length (active s) \<le> 1"
    "finished s = serial_outcomes ext db ds []"
    "prefix (serial_calls ext db ds []) (store_calls s)"
    "active s = [] \<longrightarrow> store_calls s = serial_calls ext db ds []"
    "\<forall>job. active s = [job] \<longrightarrow>
       complete ext db job (store_calls s) =
         complete ext db (Reading (job_socket job)) (serial_calls ext db ds [])"
    by blast
  show "length (active (server_after ext db acts)) \<le> 1"
    using ds(2) by (simp add: s_def)
  show "queued (server_after ext db acts) = [] \<Longrightarrow> active (server_after ext db acts) = [] \<Longrightarrow>
      store_calls (server_after ext db acts) = serial_calls ext db (connections acts) [] \<and>
      finished (server_after ext db acts) = serial_outcomes ext db (connections acts) []"
    using ds(1,3,5) by (simp add: s_def)
  have "prefix (store_calls s) (serial_calls ext db (connections acts) [])"
  proof (cases "active s")
    case Nil
    then have "store_calls s = serial_calls ext db ds []"
      using ds(5) by simp
    then show ?thesis
      using ds(1) Nil by (simp add: serial_calls_append serial_calls_extends)
  next
    case (Cons job rest)
    with ds(2) have a: "active s = [job]"
      by simp
    let ?r = "handleClientMessage ext (job_socket job) db (serial_calls ext db ds [])"
    have "prefix (store_calls s) (snd (complete ext db job (store_calls s)))"
      by (rule complete_extends)
    also have "snd (complete ext db job (store_calls s)) = calls ?r"
      using ds(6) a by (simp add: Let_def)
    also have "prefix (calls ?r) (serial_calls ext db (queued s) (calls ?r))"
      by (rule serial_calls_extends)
    finally show ?thesis
      using ds(1) a by (simp add: serial_calls_append)
  qed
  then show "prefix (store_calls (server_after ext db acts))
      (serial_calls ext db (connections acts) [])"
    by (simp add: s_def)
qed

text \<open>
  Claim C1. Whatever the order in which connections are accepted, the queue starts tasks
  and started tasks are resumed, at most one task is started and unsettled at any time, and
  the calls that the store has received are a prefix of those it receives when the sockets
  are handled one after the other, each to its end, in the order in which they were
  accepted. They are exactly those calls once every task has settled, and the outcomes are
  the same. On a store that fulfils every call, that is the calls of the first message, then
  the calls of the second, and so on, one block of calls for each message.
\<close>

theorem store_sees_messages_in_order:
  "length (active (server_after ext db acts)) \<le> 1 \<and>
   prefix (store_calls (server_after ext db acts)) (serial_calls ext db (connections acts) []) \<and>
   (queued (server_after ext db acts) = [] \<and> active (server_after ext db acts) = [] \<longrightarrow>
      store_calls (server_after ext db acts) = serial_calls ext db (connections acts) [] \<and>
      finished (server_after ext db acts) = serial_outcomes ext db (connections acts) []) \<and>
   ((\<forall>tr c. db tr c = None) \<longrightarrow>
      serial_calls ext db (connections acts) [] =
        concat (map (\<lambda>clientSocket. calls (handleClientMessage ext clientSocket db []))
          (connections acts)))"
  using server_serial [of ext db acts] serial_calls_willing [of db ext "connections acts" "[]"]
  by simp

theorem store_sees_messages_in_order_witness:
  "queued (server_after example_ext willing_store example_schedule) = [] \<and>
   active (server_after example_ext willing_store example_schedule) = [] \<and>
   connections example_schedule = [scenario_socket, odd_socket] \<and>
   (\<forall>tr c. willing_store tr c = None) \<and>
   store_calls (server_after example_ext willing_store example_schedule) =
     calls (handleClientMessage example_ext scenario_socket willing_store []) @
     calls (handleClientMessage example_ext odd_socket willing_store []) \<and>
   finished (server_after example_ext willing_store example_schedule) =
     [(scenario_socket, None),
      (odd_socket, Some (UnexpectedCoreNodeEventType ''stx_lock_event''))] \<and>
   length (store_calls (server_after example_ext willing_store example_schedule)) = 9"
proof -
  have q: "queued (server_after example_ext willing_store example_schedule) = []"
    by code_simp
  have a: "active (server_after example_ext willing_store example_schedule) = []"
    by code_simp
  have c: "connections example_schedule = [scenario_socket, odd_socket]"
    by code_simp
  have w: "\<forall>tr c. willing_store tr c = None"
    by (simp add: willing_store_def)
  have o: "serial_outcomes example_ext willing_store [scenario_socket, odd_socket] [] =
      [(scenario_socket, None),
       (odd_socket, Some (UnexpectedCoreNodeEventType ''stx_lock_event''))]"
    by code_simp
  have l: "length (calls (handleClientMessage example_ext scenario_socket willing_store []) @
      calls (handleClientMessage example_ext odd_socket willing_store [])) = 9"
    by code_simp
  show ?thesis
    using store_sees_messages_in_order [of example_ext willing_store example_schedule]
      q a c w o l
    by simp
qed

text \<open>
  With two tasks at a time the calls of two messages do interleave: the order above is due
  to the concurrency of 1.
\<close>

lemma two_at_a_time_interleaves:
  "\<not> prefix
      (store_calls (exec example_ext willing_store 2
        [Connect scenario_socket, Connect odd_socket, Start, Start,
         Resume 0, Resume 1, Resume 0, Resume 1] idle_server))
      (serial_calls example_ext willing_store [scenario_socket, odd_socket] [])"
  by code_simp

section \<open>What the acceptor submits\<close>

text \<open>
  Claim C5 says that the acceptor reads and decodes the message first and submits it only
  when that succeeds, so that nothing is submitted on a decode failure or an empty message.
  The code does otherwise: a socket on which reading fails, and one without a message, each
  have a task in the queue as soon as they are accepted.
\<close>

theorem nothing_queued_on_read_failure_counterexample:
  "readMessageFromStream example_ext (incoming malformed_socket) = Inl ''malformed message'' \<and>
   queued (server_after example_ext willing_store [Connect malformed_socket]) = [malformed_socket] \<and>
   readMessageFromStream example_ext (incoming empty_socket) = Inr None \<and>
   queued (server_after example_ext willing_store [Connect empty_socket]) = [empty_socket]"
  by code_simp

text \<open>
  Claim C5, amended. For every accepted connection the acceptor adds one task to the queue
  at once, without reading from the socket. The task holds the socket and is
  \<^verbatim>\<open>handleClientMessage\<close>: run on its own to its end it leaves the calls and the outcome of
  that function, which reads and decodes the message itself. When reading fails or gives
  no message, the task issues no call on the store.
\<close>

theorem task_is_queued_before_the_read:
  "fire ext db concurrency (Connect clientSocket) s = s\<lparr>queued := queued s @ [clientSocket]\<rparr> \<and>
   (connections acts = [] \<and>
    queued (server_after ext db (Connect clientSocket # acts)) = [] \<and>
    active (server_after ext db (Connect clientSocket # acts)) = [] \<longrightarrow>
      store_calls (server_after ext db (Connect clientSocket # acts)) =
        calls (handleClientMessage ext clientSocket db []) \<and>
      finished (server_after ext db (Connect clientSocket # acts)) =
        [(socket (handleClientMessage ext clientSocket db []),
          rejection (handleClientMessage ext clientSocket db []))]) \<and>
   (readMessageFromStream ext (incoming clientSocket) = Inr None \<longrightarrow>
      calls (handleClientMessage ext clientSocket db tr) = tr) \<and>
   (\<forall>err. readMessageFromStream ext (incoming clientSocket) = Inl err \<longrightarrow>
      calls (handleClientMessage ext clientSocket db tr) = tr)"
proof -
  have "connections (Connect clientSocket # acts) = [clientSocket]" if "connections acts = []"
    using that connections_simps(2) [of "[Connect clientSocket]" acts] by simp
  then show ?thesis
    using server_serial(3) [of ext db "Connect clientSocket # acts"]
    by (simp add: handleClientMessage_def Let_def)
qed

theorem task_is_queued_before_the_read_witness:
  "connections [Start, Resume 0] = [] \<and>
   queued (server_after example_ext willing_store
     (Connect malformed_socket # [Start, Resume 0])) = [] \<and>
   active (server_after example_ext willing_store
     (Connect malformed_socket # [Start, Resume 0])) = [] \<and>
   store_calls (server_after example_ext willing_store
     (Connect malformed_socket # [Start, Resume 0])) =
     calls (handleClientMessage example_ext malformed_socket willing_store []) \<and>
   finished (server_after example_ext willing_store
     (Connect malformed_socket # [Start, Resume 0])) =
     [(malformed_socket\<lparr>destroyed := True\<rparr>, None)] \<and>
   readMessageFromStream example_ext (incoming empty_socket) = Inr None \<and>
   calls (handleClientMessage example_ext empty_socket willing_store [updateTx ''0x09'']) =
     [updateTx ''0x09''] \<and>
   readMessageFromStream example_ext (incoming malformed_socket) = Inl ''malformed message'' \<and>
   calls (handleClientMessage example_ext malformed_socket willing_store [updateTx ''0x09'']) =
     [updateTx ''0x09'']"
proof -
  let ?acts = "[Start, Resume 0]"
  have c: "connections ?acts = []"
    by code_simp
  have q: "queued (server_after example_ext willing_store (Connect malformed_socket # ?acts)) = []"
    by code_simp
  have a: "active (server_after example_ext willing_store (Connect malformed_socket # ?acts)) = []"
    by code_simp
  have r1: "readMessageFromStream example_ext (incoming empty_socket) = Inr None"
    by code_simp
  have r2: "readMessageFromStream example_ext (incoming malformed_socket) =
      Inl ''malformed message''"
    by code_simp
  have h: "(socket (handleClientMessage example_ext malformed_socket willing_store []),
      rejection (handleClientMessage example_ext malformed_socket willing_store [])) =
      (malformed_socket\<lparr>destroyed := True\<rparr>, None)"
    by code_simp
  note t1 = task_is_queued_before_the_read [where ext = example_ext and db = willing_store
      and clientSocket = malformed_socket and acts = ?acts and tr = "[updateTx ''0x09'']"]
  note t2 = task_is_queued_before_the_read [where ext = example_ext and db = willing_store
      and clientSocket = empty_socket and tr = "[updateTx ''0x09'']"]
  show ?thesis
    using t1 t2 c q a r1 r2 h by simp
qed

end
